theory Spec2Isabelle
  imports Complex_Main "HOL-Library.Multiset" "HOL-Library.AList" "HOL-Library.Char_ord" "HOL-Library.List_Lexorder"
begin

section \<open>Python strings\<close>

text \<open>
  A Python \<open>str\<close> is modelled as a \<open>string\<close>; a \<open>char\<close> stands for the code point of
  the same number, so the model covers texts whose code points are below 256. The
  character classes are the ones Python uses there: \<open>str.strip\<close>, \<open>str.split\<close> and the
  regular expression class \<open>\s\<close> share one notion of white space, \<open>\d\<close> is a decimal
  digit, \<open>str.isalpha\<close> a letter, and \<open>str.lower\<close> maps a capital letter to its small one.
  The interpreter's configurable limit on the number of digits \<open>int\<close> converts is not
  part of the model.
\<close>

abbreviation NL :: char where
  "NL \<equiv> CHR 0x0A"

definition isspace :: "char \<Rightarrow> bool" where
  "isspace c =
     (let n = (of_char c :: nat)
      in (9 \<le> n \<and> n \<le> 13) \<or> (28 \<le> n \<and> n \<le> 32) \<or> n = 133 \<or> n = 160)"

definition isdecimal :: "char \<Rightarrow> bool" where
  "isdecimal c = (let n = (of_char c :: nat) in 48 \<le> n \<and> n \<le> 57)"

definition isalpha_char :: "char \<Rightarrow> bool" where
  "isalpha_char c =
     (let n = (of_char c :: nat)
      in (65 \<le> n \<and> n \<le> 90) \<or> (97 \<le> n \<and> n \<le> 122) \<or> n = 170 \<or> n = 181 \<or> n = 186
         \<or> (192 \<le> n \<and> n \<le> 214) \<or> (216 \<le> n \<and> n \<le> 246) \<or> (248 \<le> n \<and> n \<le> 255))"

definition lower_char :: "char \<Rightarrow> char" where
  "lower_char c =
     (let n = (of_char c :: nat)
      in if (65 \<le> n \<and> n \<le> 90) \<or> (192 \<le> n \<and> n \<le> 222 \<and> n \<noteq> 215)
         then char_of (n + 32) else c)"

text \<open>\<open>w.isalpha()\<close>: every character is a letter and there is at least one.\<close>

definition isalpha :: "string \<Rightarrow> bool" where
  "isalpha w = (w \<noteq> [] \<and> list_all isalpha_char w)"

definition lower :: "string \<Rightarrow> string" where
  "lower w = map lower_char w"

text \<open>\<open>s.strip()\<close>: white space removed at both ends.\<close>

definition strip :: "string \<Rightarrow> string" where
  "strip s = rev (dropWhile isspace (rev (dropWhile isspace s)))"

text \<open>
  \<open>s.split()\<close>: the maximal runs of characters that are not white space, in order.
  The first argument holds the characters of the run being read, last one first.
\<close>

fun split_run :: "string \<Rightarrow> string \<Rightarrow> string list" where
  "split_run run [] = (if run = [] then [] else [rev run])"
| "split_run run (c # cs) =
     (if isspace c
      then (if run = [] then split_run [] cs else rev run # split_run [] cs)
      else split_run (c # run) cs)"

definition split_ws :: "string \<Rightarrow> string list" where
  "split_ws s = split_run [] s"

text \<open>\<open>s.split('\n')\<close>: the lines of a text; a text of n newlines has n + 1 lines.\<close>

fun split_nl :: "string \<Rightarrow> string list" where
  "split_nl [] = [[]]"
| "split_nl (c # cs) =
     (if c = NL then [] # split_nl cs
      else (case split_nl cs of [] \<Rightarrow> [[c]] | l # ls \<Rightarrow> (c # l) # ls))"

text \<open>\<open>sep.join(xs)\<close>.\<close>

fun join :: "string \<Rightarrow> string list \<Rightarrow> string" where
  "join sep [] = []"
| "join sep [x] = x"
| "join sep (x # y # ys) = x @ sep @ join sep (y # ys)"

text \<open>\<open>int(ds)\<close> for a string of decimal digits, and \<open>str(n)\<close> for an integer.\<close>

definition int_of_digits :: "string \<Rightarrow> int" where
  "int_of_digits ds = foldl (\<lambda>a c. 10 * a + (int (of_char c) - 48)) 0 ds"

fun str_nat :: "nat \<Rightarrow> string" where
  "str_nat n =
     (if n < 10 then [''0123456789'' ! n]
      else str_nat (n div 10) @ [''0123456789'' ! (n mod 10)])"

definition str_int :: "int \<Rightarrow> string" where
  "str_int i = (if i < 0 then CHR ''-'' # str_nat (nat (- i)) else str_nat (nat i))"

section \<open>Segmentation: \<open>split_by_pages\<close> (index\_markdown.py)\<close>

record raw_page =
  rp_page_num :: int
  rp_text :: string
  rp_word_count :: nat

record chunk =
  ch_page_num :: int
  ch_page_range :: "int list"
  ch_text :: string
  ch_word_count :: nat
  ch_is_merged :: bool

text \<open>
  \<open>re.match(r'^Page\s+(\d+)\s*$', s)\<close> followed by \<open>int(page_match.group(1))\<close>: the
  string is \<open>Page\<close>, one or more white space characters, one or more digits, and white
  space up to its end. The greedy reading is the only one that can match: a shorter run
  of white space is followed by white space, not a digit, and a shorter run of digits is
  followed by a digit, not the end.
\<close>

definition page_match :: "string \<Rightarrow> int option" where
  "page_match s =
     (if take 4 s = ''Page''
      then (let r = drop 4 s;
                ws = takeWhile isspace r;
                ds = takeWhile isdecimal (dropWhile isspace r);
                tl = dropWhile isdecimal (dropWhile isspace r)
            in if ws \<noteq> [] \<and> ds \<noteq> [] \<and> list_all isspace tl
               then Some (int_of_digits ds) else None)
      else None)"

text \<open>Step 1 of \<open>split_by_pages\<close>: the local variables of the loop over the lines.\<close>

record scan_state =
  raw_pages :: "raw_page list"
  current_page :: "string list"
  current_page_num :: "int option"

text \<open>
  "Save previous page if exists": the block that is run at a marker line and once more
  after the loop ("Handle trailing content"). It returns the new \<open>raw_pages\<close>.
\<close>

definition save_page :: "scan_state \<Rightarrow> raw_page list" where
  "save_page st =
     (case current_page_num st of
        None \<Rightarrow> raw_pages st
      | Some n \<Rightarrow>
          if current_page st \<noteq> []
          then (let page_text = strip (join [NL] (current_page st))
                in if page_text \<noteq> []
                   then raw_pages st @
                          [\<lparr>rp_page_num = n, rp_text = page_text,
                            rp_word_count = length (split_ws page_text)\<rparr>]
                   else raw_pages st)
          else raw_pages st)"

definition scan_line :: "scan_state \<Rightarrow> string \<Rightarrow> scan_state" where
  "scan_line st line =
     (case page_match (strip line) of
        Some n \<Rightarrow>
          \<lparr>raw_pages = save_page st, current_page = [line], current_page_num = Some n\<rparr>
      | None \<Rightarrow> st\<lparr>current_page := current_page st @ [line]\<rparr>)"

definition scan_init :: scan_state where
  "scan_init = \<lparr>raw_pages = [], current_page = [], current_page_num = None\<rparr>"

definition extract_pages :: "string \<Rightarrow> raw_page list" where
  "extract_pages content = save_page (foldl scan_line scan_init (split_nl content))"

text \<open>
  Step 2, the inner \<open>while j < len(raw_pages) and merged_word_count < min_words\<close>: the
  last argument is \<open>raw_pages[j:]\<close>, the result the three accumulators and the pages left.
\<close>

fun merge_next ::
  "int \<Rightarrow> string \<Rightarrow> nat \<Rightarrow> int list \<Rightarrow> raw_page list
     \<Rightarrow> (string \<times> nat \<times> int list) \<times> raw_page list" where
  "merge_next min_words merged_text merged_word_count page_range [] =
     ((merged_text, merged_word_count, page_range), [])"
| "merge_next min_words merged_text merged_word_count page_range (next_page # rest) =
     (if int merged_word_count < min_words
      then merge_next min_words
             (merged_text @ [NL, NL] @ rp_text next_page)
             (merged_word_count + rp_word_count next_page)
             (page_range @ [rp_page_num next_page]) rest
      else ((merged_text, merged_word_count, page_range), next_page # rest))"

lemma merge_next_length:
  "length (snd (merge_next mw t wc pr ps)) \<le> length ps"
  by (induction ps arbitrary: t wc pr) (auto simp: le_SucI)

text \<open>Step 2, the outer \<open>while i < len(raw_pages)\<close>: the argument is \<open>raw_pages[i:]\<close>.\<close>

function merge_pages :: "int \<Rightarrow> raw_page list \<Rightarrow> chunk list" where
  "merge_pages min_words [] = []"
| "merge_pages min_words (current # rest) =
     (if min_words \<le> int (rp_word_count current)
      then \<lparr>ch_page_num = rp_page_num current,
            ch_page_range = [rp_page_num current],
            ch_text = rp_text current,
            ch_word_count = rp_word_count current,
            ch_is_merged = False\<rparr> # merge_pages min_words rest
      else (case merge_next min_words (rp_text current) (rp_word_count current)
                   [rp_page_num current] rest of
              ((merged_text, merged_word_count, page_range), rest') \<Rightarrow>
                \<lparr>ch_page_num = hd page_range,
                 ch_page_range = page_range,
                 ch_text = merged_text,
                 ch_word_count = merged_word_count,
                 ch_is_merged = (1 < length page_range)\<rparr> # merge_pages min_words rest'))"
  by pat_completeness auto
termination
proof (relation "measure (\<lambda>(mw, ps). length ps)")
  show "wf (measure (\<lambda>(mw, ps). length ps))" by simp
next
  fix min_words :: int and current :: raw_page and rest :: "raw_page list"
  show "((min_words, rest), (min_words, current # rest)) \<in> measure (\<lambda>(mw, ps). length ps)"
    by simp
next
  fix min_words :: int and current :: raw_page and rest x1 x2 x1a x2a x2b
  assume "(x1, x2) = merge_next min_words (rp_text current) (rp_word_count current)
                       [rp_page_num current] rest"
  then have "x2 = snd (merge_next min_words (rp_text current) (rp_word_count current)
                       [rp_page_num current] rest)"
    by (metis snd_conv)
  then have "length x2 \<le> length rest"
    by (simp add: merge_next_length)
  then show "((min_words, x2), (min_words, current # rest)) \<in> measure (\<lambda>(mw, ps). length ps)"
    by simp
qed

definition split_by_pages :: "string \<Rightarrow> int \<Rightarrow> chunk list" where
  "split_by_pages content min_words = merge_pages min_words (extract_pages content)"

text \<open>The page numbers of the marker lines of a text, in the order of the lines.\<close>

definition marker_numbers :: "string \<Rightarrow> int list" where
  "marker_numbers content = List.map_filter (\<lambda>line. page_match (strip line)) (split_nl content)"

subsection \<open>Notions used to state the properties of segmentation\<close>

text \<open>
  The chunk that \<open>split_by_pages\<close> builds from a run of consecutive raw pages that it
  puts together, stated on the run as a whole.
\<close>

definition chunk_of_group :: "raw_page list \<Rightarrow> chunk" where
  "chunk_of_group g =
     \<lparr>ch_page_num = rp_page_num (hd g),
      ch_page_range = map rp_page_num g,
      ch_text = join [NL, NL] (map rp_text g),
      ch_word_count = sum_list (map rp_word_count g),
      ch_is_merged = (1 < length g)\<rparr>"

text \<open>The word count of a run of raw pages.\<close>

definition group_sum :: "raw_page list \<Rightarrow> nat" where
  "group_sum g = sum_list (map rp_word_count g)"

text \<open>The page numbers a scan state holds: those saved, and the page being read.\<close>

definition scan_numbers :: "scan_state \<Rightarrow> int list" where
  "scan_numbers st =
     map rp_page_num (raw_pages st) @ (case current_page_num st of None \<Rightarrow> [] | Some n \<Rightarrow> [n])"

text \<open>
  The invariant of the scan: the page being read has a line that is not blank (its
  marker line), and every saved page has the word count of its text.
\<close>

definition scan_ok :: "scan_state \<Rightarrow> bool" where
  "scan_ok st =
     ((current_page_num st = None \<or> list_ex (\<lambda>l. \<not> list_all isspace l) (current_page st))
      \<and> list_all (\<lambda>p. rp_word_count p = length (split_ws (rp_text p))) (raw_pages st))"

section \<open>The indexing pass (index\_markdown.py)\<close>

definition MIN_WORDS :: int where
  "MIN_WORDS = 50"

definition MIN_WORD_LENGTH :: nat where
  "MIN_WORD_LENGTH = 5"

definition SIMILARITY_THRESHOLD :: nat where
  "SIMILARITY_THRESHOLD = 3"

text \<open>The exceptions that end the script.\<close>

datatype py_error = NameError | IndexError | ZeroDivisionError | SystemExit

text \<open>Running a body over a list, and collecting lists, up to the first exception.\<close>

fun fold_err :: "('a \<Rightarrow> 's \<Rightarrow> 'e + 's) \<Rightarrow> 'a list \<Rightarrow> 's \<Rightarrow> 'e + 's" where
  "fold_err f [] s = Inr s"
| "fold_err f (x # xs) s = (case f x s of Inl e \<Rightarrow> Inl e | Inr s' \<Rightarrow> fold_err f xs s')"

fun concat_err :: "('e + 'a list) list \<Rightarrow> 'e + 'a list" where
  "concat_err [] = Inr []"
| "concat_err (Inl e # ms) = Inl e"
| "concat_err (Inr xs # ms) = (case concat_err ms of Inl e \<Rightarrow> Inl e | Inr ys \<Rightarrow> Inr (xs @ ys))"

subsection \<open>The graph store\<close>

text \<open>
  The graph store holds \<open>Document\<close> and \<open>Page\<close> nodes and three kinds of relationships.
  A node is known by its position in the list of the nodes of its label, as the store
  knows a node by an identity of its own and not by its \<open>id\<close> property; a relationship
  names the positions of its two nodes.
\<close>

record doc_node =
  dn_id :: string
  dn_source :: string
  dn_title :: string

record page_node =
  pn_id :: string
  pn_doc_id :: string
  pn_page_num :: int
  pn_page_range :: "int list"
  pn_page_range_str :: string
  pn_chunk_idx :: nat
  pn_text :: string
  pn_word_count :: nat
  pn_is_merged :: bool

record related_to =
  rt_from :: nat
  rt_to :: nat
  rt_common_keywords :: "string list"
  rt_page_distance :: int

record graph =
  documents :: "doc_node list"
  pages :: "page_node list"
  contains_rel :: "(nat \<times> nat) list"
  next_page_rel :: "(nat \<times> nat) list"
  related_to_rel :: "related_to list"

definition empty_graph :: graph where
  "empty_graph = \<lparr>documents = [], pages = [], contains_rel = [], next_page_rel = [],
                   related_to_rel = []\<rparr>"

text \<open>\<open>MATCH (n {id: $id})\<close>: the positions of the nodes with that \<open>id\<close>.\<close>

definition match_pages :: "graph \<Rightarrow> string \<Rightarrow> nat list" where
  "match_pages g i = filter (\<lambda>k. pn_id (pages g ! k) = i) [0..<length (pages g)]"

definition match_documents :: "graph \<Rightarrow> string \<Rightarrow> nat list" where
  "match_documents g i = filter (\<lambda>k. dn_id (documents g ! k) = i) [0..<length (documents g)]"

text \<open>
  \<open>MERGE (d:Document {id: $id}) SET d.source = $source, d.title = $title\<close>: the
  properties are set on every document node with that id; one is created when there is
  none.
\<close>

definition merge_document :: "graph \<Rightarrow> string \<Rightarrow> string \<Rightarrow> string \<Rightarrow> graph" where
  "merge_document g i source title =
     (if list_ex (\<lambda>d. dn_id d = i) (documents g)
      then g\<lparr>documents :=
               map (\<lambda>d. if dn_id d = i then d\<lparr>dn_source := source, dn_title := title\<rparr> else d)
                 (documents g)\<rparr>
      else g\<lparr>documents := documents g @ [\<lparr>dn_id = i, dn_source = source, dn_title = title\<rparr>]\<rparr>)"

text \<open>\<open>CREATE (p:Page {...})\<close>: a new node, whatever the store holds.\<close>

definition create_page :: "graph \<Rightarrow> page_node \<Rightarrow> graph" where
  "create_page g p = g\<lparr>pages := pages g @ [p]\<rparr>"

text \<open>
  \<open>MATCH (d:Document {id: $doc_id}) MATCH (p:Page {id: $chunk_id}) MERGE (d)-[:CONTAINS]->(p)\<close>:
  for every pair of matching nodes, the relationship is created unless it is there.
\<close>

definition merge_contains :: "graph \<Rightarrow> string \<Rightarrow> string \<Rightarrow> graph" where
  "merge_contains g doc_id chunk_id =
     g\<lparr>contains_rel := contains_rel g @
          filter (\<lambda>e. e \<notin> set (contains_rel g))
            (List.product (match_documents g doc_id) (match_pages g chunk_id))\<rparr>"

text \<open>
  \<open>MATCH (p1:Page {id: $id1}) MATCH (p2:Page {id: $id2}) CREATE (p1)-[:NEXT_PAGE]->(p2)\<close>:
  one new relationship for every pair of matching nodes.
\<close>

definition create_next_page :: "graph \<Rightarrow> string \<Rightarrow> string \<Rightarrow> graph" where
  "create_next_page g id1 id2 =
     g\<lparr>next_page_rel := next_page_rel g @
          List.product (match_pages g id1) (match_pages g id2)\<rparr>"

text \<open>The same with \<open>CREATE (p1)-[:RELATED_TO {common_keywords: ..., page_distance: ...}]->(p2)\<close>.\<close>

definition create_related_to :: "graph \<Rightarrow> string \<Rightarrow> string \<Rightarrow> string list \<Rightarrow> int \<Rightarrow> graph" where
  "create_related_to g id1 id2 kws distance =
     g\<lparr>related_to_rel := related_to_rel g @
          map (\<lambda>(a, b). \<lparr>rt_from = a, rt_to = b, rt_common_keywords = kws,
                          rt_page_distance = distance\<rparr>)
            (List.product (match_pages g id1) (match_pages g id2))\<rparr>"

subsection \<open>Phase 1: the chunks of every file\<close>

text \<open>
  The embedding model is a parameter \<open>encode\<close> of the pass, a function from a text to a
  vector of some type; the pass passes its result on and never looks into it.
\<close>

record 'v chunk_data =
  cd_id :: nat
  cd_doc_id :: string
  cd_chunk_idx :: nat
  cd_page_num :: int
  cd_page_range :: "int list"
  cd_is_merged :: bool
  cd_text :: string
  cd_embedding :: 'v

record 'v point =
  pt_id :: nat
  pt_vector :: 'v
  pt_text :: string
  pt_doc :: string
  pt_chunk_idx :: nat
  pt_page_num :: int
  pt_page_range :: "int list"
  pt_is_merged :: bool

text \<open>
  The line the pass prints for a file once its chunks are made:
  \<open>name... (n chunks, pages r, m merged)\<close> behind a check mark.
\<close>

record status_line =
  sl_file :: string
  sl_chunks :: nat
  sl_pages :: string
  sl_merged :: nat

text \<open>
  The module-level variables of the script. \<open>page_range_var\<close> is the name \<open>page_range\<close>,
  which the loop over the chunks of a file assigns and the status line reads; it is
  \<open>None\<close> until it is assigned for the first time. The three counters are
  \<open>merge_stats\<close>.
\<close>

record 'v index_state =
  all_points :: "'v point list"
  point_id :: nat
  doc_data :: "(string \<times> 'v chunk_data list) list"
  total_chunks :: nat
  merged_chunks :: nat
  pages_merged :: nat
  page_range_var :: "int list option"
  console :: "status_line list"
  store :: graph

definition index_init :: "graph \<Rightarrow> 'v index_state" where
  "index_init g =
     \<lparr>all_points = [], point_id = 0, doc_data = [], total_chunks = 0, merged_chunks = 0,
      pages_merged = 0, page_range_var = None, console = [], store = g\<rparr>"

text \<open>
  The body of \<open>for page_data in pages\<close>; \<open>chunks_list\<close> and \<open>merged_count\<close> are the
  variables of the file being read.
\<close>

definition index_chunk ::
  "(string \<Rightarrow> 'v) \<Rightarrow> string \<Rightarrow> 'v index_state \<times> 'v chunk_data list \<times> nat \<Rightarrow> chunk
     \<Rightarrow> 'v index_state \<times> 'v chunk_data list \<times> nat" where
  "index_chunk encode doc_id acc page_data =
     (case acc of (st, chunks_list, merged_count) \<Rightarrow>
        let embedding = encode (ch_text page_data);
            chunk_data = \<lparr>cd_id = point_id st, cd_doc_id = doc_id,
                          cd_chunk_idx = length chunks_list,
                          cd_page_num = ch_page_num page_data,
                          cd_page_range = ch_page_range page_data,
                          cd_is_merged = ch_is_merged page_data,
                          cd_text = ch_text page_data,
                          cd_embedding = embedding\<rparr>;
            pt = \<lparr>pt_id = point_id st, pt_vector = embedding,
                  pt_text = ch_text page_data, pt_doc = doc_id,
                  pt_chunk_idx = length (chunks_list @ [chunk_data]) - 1,
                  pt_page_num = ch_page_num page_data,
                  pt_page_range = ch_page_range page_data,
                  pt_is_merged = ch_is_merged page_data\<rparr>
        in (st\<lparr>all_points := all_points st @ [pt],
                point_id := point_id st + 1,
                pages_merged := (if ch_is_merged page_data
                                 then pages_merged st + length (ch_page_range page_data)
                                 else pages_merged st),
                page_range_var := Some (ch_page_range page_data)\<rparr>,
            chunks_list @ [chunk_data],
            (if ch_is_merged page_data then merged_count + 1 else merged_count)))"

text \<open>
  The body of \<open>for file_path in md_files\<close>. A file is given by its stem (the document
  id) and its content; its name is the stem with \<open>.md\<close>. The status line reads
  \<open>page_range\<close>: a \<open>NameError\<close> when no chunk has been made so far in the whole pass.
\<close>

definition index_file ::
  "(string \<Rightarrow> 'v) \<Rightarrow> string \<times> string \<Rightarrow> 'v index_state \<Rightarrow> py_error + 'v index_state" where
  "index_file encode file st0 =
     (case file of (doc_id, content) \<Rightarrow>
        let st1 = st0\<lparr>store := merge_document (store st0) doc_id (doc_id @ ''.md'') doc_id\<rparr>;
            pages = split_by_pages content MIN_WORDS
        in (case foldl (index_chunk encode doc_id) (st1, [], 0) pages of
              (st2, chunks_list, merged_count) \<Rightarrow>
                let st3 = st2\<lparr>doc_data := AList.update doc_id chunks_list (doc_data st2),
                               total_chunks := total_chunks st2 + length chunks_list,
                               merged_chunks := merged_chunks st2 + merged_count\<rparr>
                in (case page_range_var st3 of
                      None \<Rightarrow> Inl NameError
                    | Some page_range \<Rightarrow>
                        Inr (st3\<lparr>console := console st3 @
                               [\<lparr>sl_file = doc_id @ ''.md'',
                                 sl_chunks = length chunks_list,
                                 sl_pages = (if page_range \<noteq> []
                                             then str_int (hd page_range) @ ''-'' @
                                                  str_int (last page_range)
                                             else ''N/A''),
                                 sl_merged = merged_count\<rparr>]\<rparr>))))"

definition phase1 ::
  "(string \<Rightarrow> 'v) \<Rightarrow> (string \<times> string) list \<Rightarrow> 'v index_state \<Rightarrow> py_error + 'v index_state" where
  "phase1 encode md_files st = fold_err (index_file encode) md_files st"

subsection \<open>Phase 3: page nodes and relationships\<close>

text \<open>
  The label of a page range: \<open>f"{r[0]}-{r[-1]}" if len(r) > 1 else str(r[0])\<close>, an
  \<open>IndexError\<close> on the empty list.
\<close>

definition page_range_str :: "int list \<Rightarrow> py_error + string" where
  "page_range_str r =
     (if 1 < length r then Inr (str_int (hd r) @ ''-'' @ str_int (last r))
      else (case r of [] \<Rightarrow> Inl IndexError | p # _ \<Rightarrow> Inr (str_int p)))"

definition chunk_neo_id :: "string \<Rightarrow> int list \<Rightarrow> py_error + string" where
  "chunk_neo_id doc_id r =
     (case page_range_str r of Inl e \<Rightarrow> Inl e | Inr s \<Rightarrow> Inr (doc_id @ ''_page_'' @ s))"

text \<open>"Create Page nodes": the body of \<open>for chunk in chunks\<close>.\<close>

definition create_chunk_node :: "string \<Rightarrow> 'v chunk_data \<Rightarrow> graph \<Rightarrow> py_error + graph" where
  "create_chunk_node doc_id chunk g =
     (case page_range_str (cd_page_range chunk) of
        Inl e \<Rightarrow> Inl e
      | Inr s \<Rightarrow>
          Inr (merge_contains
                 (create_page g
                    \<lparr>pn_id = doc_id @ ''_page_'' @ s,
                     pn_doc_id = doc_id,
                     pn_page_num = cd_page_num chunk,
                     pn_page_range = cd_page_range chunk,
                     pn_page_range_str = s,
                     pn_chunk_idx = cd_chunk_idx chunk,
                     pn_text = cd_text chunk,
                     pn_word_count = length (split_ws (cd_text chunk)),
                     pn_is_merged = cd_is_merged chunk\<rparr>)
                 doc_id (doc_id @ ''_page_'' @ s)))"

text \<open>"RELATIONSHIP 1: Sequential page links": the body of \<open>for i in range(len(chunks) - 1)\<close>.\<close>

definition link_next :: "string \<Rightarrow> 'v chunk_data list \<Rightarrow> nat \<Rightarrow> graph \<Rightarrow> py_error + graph" where
  "link_next doc_id chunks i g =
     (case chunk_neo_id doc_id (cd_page_range (chunks ! i)) of
        Inl e \<Rightarrow> Inl e
      | Inr page1_id \<Rightarrow>
          (case chunk_neo_id doc_id (cd_page_range (chunks ! (i + 1))) of
             Inl e \<Rightarrow> Inl e
           | Inr page2_id \<Rightarrow> Inr (create_next_page g page1_id page2_id)))"

text \<open>
  "RELATIONSHIP 2: Semantic similarity". A Python set of words is a list without
  repetitions; the order in which Python lists a set is not fixed by the language, and
  the model fixes one: the words of the first text that the second has, in the order
  \<open>remdups\<close> leaves them.
\<close>

definition keyword_set :: "string \<Rightarrow> string list" where
  "keyword_set t =
     remdups (map lower (filter (\<lambda>w. MIN_WORD_LENGTH \<le> length w \<and> isalpha w) (split_ws t)))"

definition common_words :: "string list \<Rightarrow> string list \<Rightarrow> string list" where
  "common_words words1 words2 = filter (\<lambda>w. w \<in> set words2) words1"

text \<open>
  A request to create a \<open>RELATED_TO\<close> relationship: the parameters of the query, and
  the indices \<open>i\<close> and \<open>j\<close> of the loops at which it is sent.
\<close>

record sim_request =
  sr_i :: nat
  sr_j :: nat
  sr_id1 :: string
  sr_id2 :: string
  sr_keywords :: "string list"
  sr_distance :: int

text \<open>The body of the inner loop, for \<open>j\<close> in \<open>range(i + 2, min(i + 6, len(chunks)))\<close>.\<close>

definition sim_pair :: "string \<Rightarrow> 'v chunk_data list \<Rightarrow> nat \<Rightarrow> nat \<Rightarrow> py_error + sim_request list" where
  "sim_pair doc_id chunks i j =
     (let words1 = keyword_set (cd_text (chunks ! i));
          words2 = keyword_set (cd_text (chunks ! j));
          common = common_words words1 words2
      in if SIMILARITY_THRESHOLD \<le> length common
         then (case chunk_neo_id doc_id (cd_page_range (chunks ! i)) of
                 Inl e \<Rightarrow> Inl e
               | Inr page1_id \<Rightarrow>
                   (case chunk_neo_id doc_id (cd_page_range (chunks ! j)) of
                      Inl e \<Rightarrow> Inl e
                    | Inr page2_id \<Rightarrow>
                        Inr [\<lparr>sr_i = i, sr_j = j, sr_id1 = page1_id, sr_id2 = page2_id,
                              sr_keywords = take 5 common,
                              sr_distance = cd_page_num (chunks ! j) - cd_page_num (chunks ! i)\<rparr>]))
         else Inr [])"

definition sim_window :: "nat \<Rightarrow> nat \<Rightarrow> nat list" where
  "sim_window n i = [i + 2..<min (i + 6) n]"

definition sim_requests :: "string \<Rightarrow> 'v chunk_data list \<Rightarrow> py_error + sim_request list" where
  "sim_requests doc_id chunks =
     concat_err
       (concat (map (\<lambda>i. map (\<lambda>j. sim_pair doc_id chunks i j) (sim_window (length chunks) i))
                  [0..<length chunks]))"

definition send_sim_request :: "graph \<Rightarrow> sim_request \<Rightarrow> graph" where
  "send_sim_request g r =
     create_related_to g (sr_id1 r) (sr_id2 r) (sr_keywords r) (sr_distance r)"

text \<open>The body of \<open>for doc_id, chunks in doc_data.items()\<close>, and the phase.\<close>

definition phase3_doc :: "string \<times> 'v chunk_data list \<Rightarrow> graph \<Rightarrow> py_error + graph" where
  "phase3_doc entry g =
     (case entry of (doc_id, chunks) \<Rightarrow>
        (case fold_err (create_chunk_node doc_id) chunks g of
           Inl e \<Rightarrow> Inl e
         | Inr g1 \<Rightarrow>
             (case fold_err (link_next doc_id chunks) [0..<length chunks - 1] g1 of
                Inl e \<Rightarrow> Inl e
              | Inr g2 \<Rightarrow>
                  (case sim_requests doc_id chunks of
                     Inl e \<Rightarrow> Inl e
                   | Inr rs \<Rightarrow> Inr (foldl send_sim_request g2 rs)))))"

definition phase3 :: "(string \<times> 'v chunk_data list) list \<Rightarrow> graph \<Rightarrow> py_error + graph" where
  "phase3 data g = fold_err phase3_doc data g"

text \<open>
  The whole script on a store: it exits when there is no file, runs the phases (phase
  2 writes \<open>all_points\<close> to the vector index and does not touch the graph store), and
  divides by \<open>total_chunks\<close> in its summary. The result is the graph store the script
  leaves when it ends without an exception.
\<close>

definition run_index :: "(string \<Rightarrow> 'v) \<Rightarrow> (string \<times> string) list \<Rightarrow> graph \<Rightarrow> py_error + graph" where
  "run_index encode md_files g =
     (if md_files = [] then Inl SystemExit
      else (case phase1 encode md_files (index_init g) of
              Inl e \<Rightarrow> Inl e
            | Inr st \<Rightarrow>
                (case phase3 (doc_data st) (store st) of
                   Inl e \<Rightarrow> Inl e
                 | Inr g' \<Rightarrow> if total_chunks st = 0 then Inl ZeroDivisionError else Inr g')))"

subsection \<open>Example data\<close>



text \<open>A state of the pass in which \<open>page_range\<close> has been assigned.\<close>

definition example_state :: "unit index_state" where
  "example_state = (index_init empty_graph)\<lparr>page_range_var := Some [3, 4]\<rparr>"

text \<open>
  A document of two pages: page 1 has 52 words and is a chunk of its own, page 2 is the
  last chunk.
\<close>

definition example_doc :: string where
  "example_doc =
     ''Page 1'' @ [NL] @ concat (replicate 50 ''w '') @ [NL] @ ''Page 2'' @ [NL] @ ''the end''"

text \<open>The numbers of document nodes, page nodes, \<open>CONTAINS\<close> and \<open>NEXT_PAGE\<close> relationships.\<close>

definition graph_counts :: "graph \<Rightarrow> nat \<times> nat \<times> nat \<times> nat" where
  "graph_counts g =
     (length (documents g), length (pages g), length (contains_rel g), length (next_page_rel g))"

subsection \<open>Chunk records and page nodes that come from the chunks of a file\<close>

text \<open>
  A chunk record of the pass, and a page node of the store, that carries the fields of
  a chunk which \<open>split_by_pages\<close> returns for one of the files.
\<close>

definition cd_of_files :: "(string \<times> string) list \<Rightarrow> 'v chunk_data \<Rightarrow> bool" where
  "cd_of_files md_files cd =
     (\<exists>file\<in>set md_files. \<exists>c\<in>set (split_by_pages (snd file) MIN_WORDS).
        cd_doc_id cd = fst file \<and> cd_text cd = ch_text c \<and> cd_page_range cd = ch_page_range c
        \<and> cd_is_merged cd = ch_is_merged c \<and> cd_page_num cd = ch_page_num c)"

definition node_of_files :: "(string \<times> string) list \<Rightarrow> page_node \<Rightarrow> bool" where
  "node_of_files md_files p =
     (\<exists>file\<in>set md_files. \<exists>c\<in>set (split_by_pages (snd file) MIN_WORDS).
        pn_doc_id p = fst file \<and> pn_text p = ch_text c \<and> pn_page_range p = ch_page_range c
        \<and> pn_is_merged p = ch_is_merged c \<and> pn_page_num p = ch_page_num c
        \<and> pn_word_count p = ch_word_count c)"

text \<open>All chunk records of \<open>doc_data\<close>, and all page nodes of a store, are of that kind.\<close>

definition data_ok :: "(string \<times> string) list \<Rightarrow> (string \<times> 'v chunk_data list) list \<Rightarrow> bool" where
  "data_ok files data = (\<forall>entry\<in>set data. \<forall>cd\<in>set (snd entry). cd_doc_id cd = fst entry \<and> cd_of_files files cd)"

definition nodes_ok :: "(string \<times> string) list \<Rightarrow> graph \<Rightarrow> bool" where
  "nodes_ok files g = (\<forall>p\<in>set (pages g). node_of_files files p)"

text \<open>A document of two short pages, which the pass merges into one chunk.\<close>

definition merged_doc :: string where
  "merged_doc = ''Page 1'' @ [NL] @ ''a'' @ [NL] @ ''Page 2'' @ [NL] @ ''b''"

section \<open>The query engine (graphrag\_mcp/documentation\_tool.py)\<close>

subsection \<open>Result objects\<close>

text \<open>
  The operations return Python dictionaries with string keys. A dictionary is a list of
  key and value pairs in insertion order; \<open>d[k] = v\<close> replaces the value of a key that
  is there and adds a new key at the end.
\<close>

datatype pyval =
  PNone
| PBool bool
| PInt int
| PFloat real
| PStr string
| PList "pyval list"
| PDict "(string \<times> pyval) list"

type_synonym pydict = "(string \<times> pyval) list"

definition py_set :: "string \<Rightarrow> pyval \<Rightarrow> pydict \<Rightarrow> pydict" where
  "py_set k v d = AList.update k v d"

definition py_get :: "pydict \<Rightarrow> string \<Rightarrow> pyval option" where
  "py_get d k = map_of d k"

definition py_keys :: "pydict \<Rightarrow> string list" where
  "py_keys d = map fst d"

subsection \<open>The backends\<close>

text \<open>
  The graph store as the tool sees it: the graph, and the faults of the connection.
  \<open>nd_fault drv k = Some msg\<close> says that request \<open>k\<close> of an operation raises an exception
  whose text is \<open>msg\<close>; request 0 is the opening of the session, requests 1, 2, ... are
  the queries in the order in which the operation sends them. A query that does not
  raise returns its rows at once.
\<close>

record neo4j =
  nd_graph :: graph
  nd_fault :: "nat \<Rightarrow> string option"

text \<open>
  A point the vector index returns. Its payload has the keys the indexing pass writes,
  with values of the types it writes; any key may be missing.
\<close>

record payload =
  pl_text :: "string option"
  pl_doc :: "string option"
  pl_chunk_idx :: "int option"
  pl_page_num :: "int option"
  pl_page_range :: "int list option"
  pl_is_merged :: "bool option"

record scored_point =
  sp_id :: nat
  sp_payload :: payload
  sp_score :: real

text \<open>
  The vector index is its \<open>query_points\<close>: from the query vector, the value of the
  filter on \<open>doc\<close> (if any) and the limit to the points found, or to the text of the
  exception it raises. The embedding model is its \<open>encode\<close>, which may raise as well.
  A backend that could not be set up when the tool was made is \<open>None\<close>.
\<close>

record 'v tool =
  neo4j_driver :: "neo4j option"
  qdrant_client :: "('v \<Rightarrow> string option \<Rightarrow> int \<Rightarrow> string + scored_point list) option"
  embedder :: "(string \<Rightarrow> string + 'v) option"

text \<open>\<open>result.single()\<close>: the first row, \<open>None\<close> when there is no row.\<close>

definition single :: "'a list \<Rightarrow> 'a option" where
  "single rows = (case rows of [] \<Rightarrow> None | r # _ \<Rightarrow> Some r)"

subsection \<open>The queries on the graph\<close>

text \<open>
  Rows come in the order of the store's lists, and \<open>ORDER BY\<close> keeps that order among
  rows with equal keys.

  \<open>MATCH (p:Page {doc_id: $doc_id}) WHERE ANY(page IN p.page_range WHERE page >= $start_page
  AND page <= $end_page) ... ORDER BY p.chunk_idx\<close>:
\<close>

definition range_pages :: "graph \<Rightarrow> string \<Rightarrow> int \<Rightarrow> int \<Rightarrow> page_node list" where
  "range_pages g doc_id start_page end_page =
     sort_key pn_chunk_idx
       (filter (\<lambda>p. pn_doc_id p = doc_id \<and>
                     list_ex (\<lambda>page. start_page \<le> page \<and> page \<le> end_page) (pn_page_range p))
          (pages g))"

text \<open>\<open>MATCH (p:Page {doc_id: $doc_id}) WHERE $start_page IN p.page_range\<close>:\<close>

definition single_pages :: "graph \<Rightarrow> string \<Rightarrow> int \<Rightarrow> page_node list" where
  "single_pages g doc_id start_page =
     filter (\<lambda>p. pn_doc_id p = doc_id \<and> start_page \<in> set (pn_page_range p)) (pages g)"


text \<open>\<open>MATCH (p1:Page {id: $page_id})-[:NEXT_PAGE]->(p2:Page)\<close>, the rows of \<open>p2\<close>:\<close>

definition next_of :: "graph \<Rightarrow> string \<Rightarrow> page_node list" where
  "next_of g page_id =
     map (\<lambda>e. pages g ! snd e)
       (filter (\<lambda>e. pn_id (pages g ! fst e) = page_id) (next_page_rel g))"

text \<open>\<open>MATCH (p1:Page {id: $page_id})<-[:NEXT_PAGE]-(p2:Page)\<close>, the rows of \<open>p2\<close>:\<close>

definition prev_of :: "graph \<Rightarrow> string \<Rightarrow> page_node list" where
  "prev_of g page_id =
     map (\<lambda>e. pages g ! fst e)
       (filter (\<lambda>e. pn_id (pages g ! snd e) = page_id) (next_page_rel g))"

text \<open>
  \<open>MATCH (p1:Page {id: $page_id})-[r:RELATED_TO]->(p2:Page) ...
  ORDER BY size(r.common_keywords) DESC LIMIT 5\<close>:
\<close>

definition related_of :: "graph \<Rightarrow> string \<Rightarrow> related_to list" where
  "related_of g page_id =
     take 5
       (sort_key (\<lambda>r. - int (length (rt_common_keywords r)))
          (filter (\<lambda>r. pn_id (pages g ! rt_from r) = page_id) (related_to_rel g)))"




subsection \<open>\<open>get_page_content\<close>\<close>

definition nav_entry :: "page_node \<Rightarrow> pyval" where
  "nav_entry p =
     PDict [(''page_num'', PInt (pn_page_num p)), (''page_range'', PStr (pn_page_range_str p))]"

definition related_entry :: "graph \<Rightarrow> related_to \<Rightarrow> pyval" where
  "related_entry g r =
     PDict [(''page_num'', PInt (pn_page_num (pages g ! rt_to r))),
            (''page_range'', PStr (pn_page_range_str (pages g ! rt_to r))),
            (''shared_keywords'', PList (map PStr (rt_common_keywords r)))]"

definition page_result :: "string \<Rightarrow> int \<Rightarrow> int option \<Rightarrow> pydict" where
  "page_result doc_id start_page end_page =
     (let is_range_request = (end_page \<noteq> None \<and> end_page \<noteq> Some start_page)
      in [(''doc_id'', PStr doc_id),
          (''start_page'', PInt start_page),
          (''end_page'', PInt (if is_range_request then the end_page else start_page)),
          (''content'', PNone),
          (''word_count'', PInt 0),
          (''page_range'', PNone),
          (''is_range'', PBool is_range_request),
          (''pages_retrieved'', PInt 0),
          (''is_merged'', PBool False),
          (''next_page'', PNone),
          (''prev_page'', PNone),
          (''related_pages'', PList []),
          (''error'', PNone)])"

text \<open>
  The text of a range: for every chunk a header line and its text, joined by
  newlines.
\<close>

definition combined_content :: "page_node list \<Rightarrow> string" where
  "combined_content rows =
     join [NL]
       (concat (map (\<lambda>p. [[NL] @ ''--- Pages '' @ pn_page_range_str p @ '' ---'' @ [NL],
                           pn_text p]) rows))"

text \<open>The messages of the operation.\<close>

definition no_pages_message :: "int \<Rightarrow> int \<Rightarrow> string \<Rightarrow> string" where
  "no_pages_message start_page end_page doc_id =
     ''No pages found in range '' @ str_int start_page @ ''-'' @ str_int end_page @
     '' in '' @ doc_id"

definition not_found_message :: "int \<Rightarrow> string \<Rightarrow> string" where
  "not_found_message start_page doc_id =
     ''Page '' @ str_int start_page @ '' not found in '' @ doc_id"

definition range_info :: "nat \<Rightarrow> int \<Rightarrow> int \<Rightarrow> string" where
  "range_info n start_page end_page =
     ''Retrieved '' @ str_int (int n) @ '' page chunk(s) covering pages '' @
     str_int start_page @ ''-'' @ str_int end_page"

definition merged_info :: "int \<Rightarrow> string \<Rightarrow> string" where
  "merged_info start_page range_label =
     ''Page '' @ str_int start_page @ '' is part of merged pages '' @ range_label"

text \<open>The result once the rows of a range are combined, and once a single page is found.\<close>

definition range_result :: "page_node list \<Rightarrow> int \<Rightarrow> int \<Rightarrow> pydict \<Rightarrow> pydict" where
  "range_result rows start_page end_page result =
     py_set ''info'' (PStr (range_info (length rows) start_page end_page))
       (py_set ''pages_retrieved'' (PInt (int (length rows)))
       (py_set ''page_range''
          (PList (map PInt (sort (remdups (concat (map pn_page_range rows))))))
       (py_set ''word_count'' (PInt (int (sum_list (map pn_word_count rows))))
       (py_set ''content'' (PStr (combined_content rows)) result))))"

definition single_result :: "page_node \<Rightarrow> int \<Rightarrow> pydict \<Rightarrow> pydict" where
  "single_result p start_page result =
     (let r1 = py_set ''pages_retrieved'' (PInt 1)
               (py_set ''is_merged'' (PBool (pn_is_merged p))
               (py_set ''page_range'' (PList (map PInt (pn_page_range p)))
               (py_set ''word_count'' (PInt (int (pn_word_count p)))
               (py_set ''content'' (PStr (pn_text p)) result))))
      in if pn_is_merged p
         then py_set ''info'' (PStr (merged_info start_page (pn_page_range_str p))) r1
         else r1)"

text \<open>
  The first query and what the operation makes of its rows. \<open>Inl\<close> is the result the
  operation returns at once; \<open>Inr\<close> carries on with the result so far, \<open>page_id\<close> and
  \<open>last_page_for_next\<close>.
\<close>

definition resolve_pages ::
  "graph \<Rightarrow> pydict \<Rightarrow> string \<Rightarrow> int \<Rightarrow> int option \<Rightarrow> pydict + (pydict \<times> string \<times> string)" where
  "resolve_pages g result doc_id start_page end_page =
     (if end_page \<noteq> None \<and> end_page \<noteq> Some start_page
      then (let rows = range_pages g doc_id start_page (the end_page)
            in if rows = []
               then Inl (py_set ''error''
                          (PStr (no_pages_message start_page (the end_page) doc_id)) result)
               else Inr (range_result rows start_page (the end_page) result,
                         pn_id (hd rows), pn_id (last rows)))
      else (case single (single_pages g doc_id start_page) of
              None \<Rightarrow>
                Inl (py_set ''error'' (PStr (not_found_message start_page doc_id)) result)
            | Some p \<Rightarrow> Inr (single_result p start_page result, pn_id p, pn_id p)))"

definition set_next_page :: "graph \<Rightarrow> string \<Rightarrow> pydict \<Rightarrow> pydict" where
  "set_next_page g last_page_for_next result =
     (case single (next_of g last_page_for_next) of
        None \<Rightarrow> result
      | Some p \<Rightarrow> py_set ''next_page'' (nav_entry p) result)"

definition set_prev_page :: "graph \<Rightarrow> string \<Rightarrow> pydict \<Rightarrow> pydict" where
  "set_prev_page g page_id result =
     (case single (prev_of g page_id) of
        None \<Rightarrow> result
      | Some p \<Rightarrow> py_set ''prev_page'' (nav_entry p) result)"

definition set_related_pages :: "graph \<Rightarrow> string \<Rightarrow> pydict \<Rightarrow> pydict" where
  "set_related_pages g page_id result =
     py_set ''related_pages'' (PList (map (related_entry g) (related_of g page_id))) result"

text \<open>\<open>except Exception as e: result['error'] = str(e)\<close>, on the result as it is then.\<close>

definition failed :: "string \<Rightarrow> pydict \<Rightarrow> pydict" where
  "failed msg result = py_set ''error'' (PStr msg) result"

definition get_page_content :: "'v tool \<Rightarrow> string \<Rightarrow> int \<Rightarrow> int option \<Rightarrow> pydict" where
  "get_page_content t doc_id start_page end_page =
     (let result = page_result doc_id start_page end_page
      in case neo4j_driver t of
           None \<Rightarrow> py_set ''error'' (PStr ''Neo4j not connected'') result
         | Some drv \<Rightarrow>
            (case nd_fault drv 0 of Some msg \<Rightarrow> failed msg result | None \<Rightarrow>
             case nd_fault drv 1 of Some msg \<Rightarrow> failed msg result | None \<Rightarrow>
             case resolve_pages (nd_graph drv) result doc_id start_page end_page of
               Inl r \<Rightarrow> r
             | Inr (r1, page_id, last_page_for_next) \<Rightarrow>
                (case nd_fault drv 2 of Some msg \<Rightarrow> failed msg r1 | None \<Rightarrow>
                 let r2 = set_next_page (nd_graph drv) last_page_for_next r1 in
                 case nd_fault drv 3 of Some msg \<Rightarrow> failed msg r2 | None \<Rightarrow>
                 let r3 = set_prev_page (nd_graph drv) page_id r2 in
                 case nd_fault drv 4 of Some msg \<Rightarrow> failed msg r3 | None \<Rightarrow>
                 set_related_pages (nd_graph drv) page_id r3)))"

subsection \<open>\<open>search_documentation\<close>\<close>





subsection \<open>\<open>get_intra_document_context\<close>\<close>






subsection \<open>\<open>hybrid_search\<close>\<close>





subsection \<open>\<open>get_document_info\<close> and \<open>list_documents\<close>\<close>








text \<open>The result of the first query, as far as the later steps leave it.\<close>

definition resolved :: "graph \<Rightarrow> string \<Rightarrow> int \<Rightarrow> int option \<Rightarrow> pydict" where
  "resolved g doc_id start_page end_page =
     (case resolve_pages g (page_result doc_id start_page end_page) doc_id start_page end_page of
        Inl r \<Rightarrow> r
      | Inr x \<Rightarrow> fst x)"

subsection \<open>The keys of the results\<close>

definition page_keys :: "string list" where
  "page_keys = [''doc_id'', ''start_page'', ''end_page'', ''content'', ''word_count'',
                ''page_range'', ''is_range'', ''pages_retrieved'', ''is_merged'', ''next_page'',
                ''prev_page'', ''related_pages'', ''error'']"




definition base_or_info :: "string list \<Rightarrow> bool" where
  "base_or_info ks = (ks = page_keys \<or> ks = page_keys @ [''info''])"

subsection \<open>Example store and tools\<close>

text \<open>
  A store with one document of three chunks: pages 1 and 2 merged, page 3, page 4; the
  first chunk is related to the third.
\<close>

definition example_graph :: graph where
  "example_graph =
     \<lparr>documents = [\<lparr>dn_id = ''d'', dn_source = ''d.md'', dn_title = ''d''\<rparr>],
      pages =
        [\<lparr>pn_id = ''d_page_1-2'', pn_doc_id = ''d'', pn_page_num = 1, pn_page_range = [1, 2],
          pn_page_range_str = ''1-2'', pn_chunk_idx = 0, pn_text = ''Page 1 a Page 2 b'',
          pn_word_count = 6, pn_is_merged = True\<rparr>,
         \<lparr>pn_id = ''d_page_3'', pn_doc_id = ''d'', pn_page_num = 3, pn_page_range = [3],
          pn_page_range_str = ''3'', pn_chunk_idx = 1, pn_text = ''Page 3 c'',
          pn_word_count = 3, pn_is_merged = False\<rparr>,
         \<lparr>pn_id = ''d_page_4'', pn_doc_id = ''d'', pn_page_num = 4, pn_page_range = [4],
          pn_page_range_str = ''4'', pn_chunk_idx = 2, pn_text = ''Page 4 d'',
          pn_word_count = 3, pn_is_merged = False\<rparr>],
      contains_rel = [(0, 0), (0, 1), (0, 2)],
      next_page_rel = [(0, 1), (1, 2)],
      related_to_rel =
        [\<lparr>rt_from = 0, rt_to = 2, rt_common_keywords = [''alpha'', ''bravo'', ''charlie''],
          rt_page_distance = 3\<rparr>]\<rparr>"

definition example_point :: scored_point where
  "example_point =
     \<lparr>sp_id = 0,
      sp_payload = \<lparr>pl_text = Some ''Page 1 a Page 2 b'', pl_doc = Some ''d'',
                    pl_chunk_idx = Some 0, pl_page_num = Some 1, pl_page_range = Some [1, 2],
                    pl_is_merged = Some True\<rparr>,
      sp_score = 1\<rparr>"

text \<open>A tool whose backends work, and a tool none of whose backends could be set up.\<close>

definition example_tool :: "unit tool" where
  "example_tool =
     \<lparr>neo4j_driver = Some \<lparr>nd_graph = example_graph, nd_fault = (\<lambda>k. None)\<rparr>,
      qdrant_client = Some (\<lambda>v f l. Inr [example_point]),
      embedder = Some (\<lambda>q. Inr ())\<rparr>"


definition example_driver :: neo4j where
  "example_driver = \<lparr>nd_graph = example_graph, nd_fault = (\<lambda>k. None)\<rparr>"

subsection \<open>Relationships of a node\<close>







text \<open>
  The store the indexing pass makes of the merged document alone, and a tool on it.
\<close>

definition merged_graph :: graph where
  "merged_graph =
     \<lparr>documents = [\<lparr>dn_id = ''m'', dn_source = ''m.md'', dn_title = ''m''\<rparr>],
      pages =
        [\<lparr>pn_id = ''m_page_1-2'', pn_doc_id = ''m'', pn_page_num = 1, pn_page_range = [1, 2],
          pn_page_range_str = ''1-2'', pn_chunk_idx = 0,
          pn_text = ''Page 1'' @ [NL] @ ''a'' @ [NL, NL] @ ''Page 2'' @ [NL] @ ''b'',
          pn_word_count = 6, pn_is_merged = True\<rparr>],
      contains_rel = [(0, 0)], next_page_rel = [], related_to_rel = []\<rparr>"

definition merged_driver :: neo4j where
  "merged_driver = \<lparr>nd_graph = merged_graph, nd_fault = (\<lambda>k. None)\<rparr>"

definition merged_tool :: "unit tool" where
  "merged_tool = \<lparr>neo4j_driver = Some merged_driver, qdrant_client = None, embedder = None\<rparr>"

subsection \<open>Facts about the string primitives\<close>

lemma isspace_NL: "isspace NL"
  by (simp add: isspace_def)

lemma split_run_append:
  "isspace w \<Longrightarrow> split_run run (a @ w # b) = split_run run a @ split_run [] b"
  by (induction a arbitrary: run) auto

lemma split_ws_sep:
  "split_ws (a @ [NL, NL] @ b) = split_ws a @ split_ws b"
proof -
  have "split_run [] (a @ NL # (NL # b)) = split_run [] a @ split_run [] (NL # b)"
    by (rule split_run_append) (rule isspace_NL)
  then show ?thesis
    by (simp add: split_ws_def isspace_NL)
qed

lemma join_Cons_append:
  "join sep ((a @ sep @ b) # ys) = a @ sep @ join sep (b # ys)"
  by (cases ys) auto

lemma join_NL2_Cons_append:
  "join [NL, NL] ((a @ NL # NL # b) # ys) = a @ NL # NL # join [NL, NL] (b # ys)"
  by (cases ys) auto

lemma split_ws_join:
  "xs \<noteq> [] \<Longrightarrow> split_ws (join [NL, NL] xs) = concat (map split_ws xs)"
proof (induction "[NL, NL]" xs rule: join.induct)
  case 1 then show ?case by simp
next
  case (2 x) then show ?case by simp
next
  case (3 x y ys)
  have "split_ws (x @ [NL, NL] @ join [NL, NL] (y # ys)) = split_ws x @ split_ws (join [NL, NL] (y # ys))"
    by (rule split_ws_sep)
  with 3 show ?case by simp
qed

lemma merge_next_spec:
  "\<exists>n \<le> length ps.
     merge_next mw t wc pr ps =
       ((join [NL, NL] (t # map rp_text (take n ps)),
         wc + sum_list (map rp_word_count (take n ps)),
         pr @ map rp_page_num (take n ps)), drop n ps)
     \<and> (\<forall>m<n. int (wc + sum_list (map rp_word_count (take m ps))) < mw)
     \<and> (n < length ps \<longrightarrow> mw \<le> int (wc + sum_list (map rp_word_count (take n ps))))"
proof (induction ps arbitrary: t wc pr)
  case Nil
  then show ?case by simp
next
  case (Cons p ps)
  show ?case
  proof (cases "int wc < mw")
    case False
    then show ?thesis by (intro exI[of _ 0]) simp
  next
    case True
    from Cons[of "t @ [NL, NL] @ rp_text p" "wc + rp_word_count p" "pr @ [rp_page_num p]"]
    obtain n where n: "n \<le> length ps"
      "merge_next mw (t @ [NL, NL] @ rp_text p) (wc + rp_word_count p) (pr @ [rp_page_num p]) ps =
       ((join [NL, NL] ((t @ [NL, NL] @ rp_text p) # map rp_text (take n ps)),
         (wc + rp_word_count p) + sum_list (map rp_word_count (take n ps)),
         (pr @ [rp_page_num p]) @ map rp_page_num (take n ps)), drop n ps)"
      "\<forall>m<n. int ((wc + rp_word_count p) + sum_list (map rp_word_count (take m ps))) < mw"
      "n < length ps \<longrightarrow> mw \<le> int ((wc + rp_word_count p) + sum_list (map rp_word_count (take n ps)))"
      by blast
    have a: "\<forall>m<Suc n. int (wc + sum_list (map rp_word_count (take m (p # ps)))) < mw"
    proof (intro allI impI)
      fix m assume "m < Suc n"
      show "int (wc + sum_list (map rp_word_count (take m (p # ps)))) < mw"
      proof (cases m)
        case 0 with True show ?thesis by simp
      next
        case (Suc k)
        with \<open>m < Suc n\<close> n(3) have "int ((wc + rp_word_count p) + sum_list (map rp_word_count (take k ps))) < mw"
          by simp
        with Suc show ?thesis by (simp add: add.assoc)
      qed
    qed
    show ?thesis
      apply (intro exI[of _ "Suc n"])
      using n(1) n(2) n(4) a True
      by (simp add: join_NL2_Cons_append add.assoc)
  qed
qed

lemma merge_pages_groups:
  "\<exists>gs. concat gs = ps \<and> [] \<notin> set gs \<and> merge_pages mw ps = map chunk_of_group gs
     \<and> (\<forall>g\<in>set gs. \<forall>m. 0 < m \<and> m < length g \<longrightarrow> int (group_sum (take m g)) < mw)
     \<and> (\<forall>k. Suc k < length gs \<longrightarrow> mw \<le> int (group_sum (gs ! k)))"
proof (induction mw ps rule: merge_pages.induct)
  case (1 mw)
  show ?case by (intro exI[of _ "[]"]) simp
next
  case (2 mw current rest)
  show ?case
  proof (cases "mw \<le> int (rp_word_count current)")
    case True
    with 2(1) obtain gs where gs: "concat gs = rest" "[] \<notin> set gs"
      "merge_pages mw rest = map chunk_of_group gs"
      "\<forall>g\<in>set gs. \<forall>m. 0 < m \<and> m < length g \<longrightarrow> int (group_sum (take m g)) < mw"
      "\<forall>k. Suc k < length gs \<longrightarrow> mw \<le> int (group_sum (gs ! k))"
      by blast
    have last: "\<forall>k. Suc k < length ([current] # gs) \<longrightarrow> mw \<le> int (group_sum (([current] # gs) ! k))"
    proof (intro allI impI)
      fix k assume "Suc k < length ([current] # gs)"
      then show "mw \<le> int (group_sum (([current] # gs) ! k))"
        using True gs(5) by (cases k) (auto simp: group_sum_def)
    qed
    show ?thesis
      apply (intro exI[of _ "[current] # gs"])
      using True gs(1-4) last
      by (simp add: chunk_of_group_def)
  next
    case False
    obtain n where n: "n \<le> length rest"
      "merge_next mw (rp_text current) (rp_word_count current) [rp_page_num current] rest =
       ((join [NL, NL] (rp_text current # map rp_text (take n rest)),
         rp_word_count current + sum_list (map rp_word_count (take n rest)),
         [rp_page_num current] @ map rp_page_num (take n rest)), drop n rest)"
      "\<forall>m<n. int (rp_word_count current + sum_list (map rp_word_count (take m rest))) < mw"
      "n < length rest \<longrightarrow> mw \<le> int (rp_word_count current + sum_list (map rp_word_count (take n rest)))"
      using merge_next_spec[of rest mw "rp_text current" "rp_word_count current" "[rp_page_num current]"]
      by blast
    from 2(2)[OF False n(2)[symmetric] refl refl]
    obtain gs where gs: "concat gs = drop n rest" "[] \<notin> set gs"
      "merge_pages mw (drop n rest) = map chunk_of_group gs"
      "\<forall>g\<in>set gs. \<forall>m. 0 < m \<and> m < length g \<longrightarrow> int (group_sum (take m g)) < mw"
      "\<forall>k. Suc k < length gs \<longrightarrow> mw \<le> int (group_sum (gs ! k))"
      by auto
    let ?g = "current # take n rest"
    have pre: "\<forall>m. 0 < m \<and> m < length ?g \<longrightarrow> int (group_sum (take m ?g)) < mw"
    proof (intro allI impI)
      fix m assume m: "0 < m \<and> m < length ?g"
      then obtain k where k: "m = Suc k" by (cases m) auto
      with m n(1) have "k < n" by simp
      with n(3) k show "int (group_sum (take m ?g)) < mw"
        by (simp add: group_sum_def)
    qed
    have last: "\<forall>k. Suc k < length (?g # gs) \<longrightarrow> mw \<le> int (group_sum ((?g # gs) ! k))"
    proof (intro allI impI)
      fix k assume len: "Suc k < length (?g # gs)"
      show "mw \<le> int (group_sum ((?g # gs) ! k))"
      proof (cases k)
        case 0
        with len have "gs \<noteq> []" by auto
        with gs(1) gs(2) have "drop n rest \<noteq> []" by (cases gs) auto
        then have "n < length rest" by simp
        with n(4) 0 show ?thesis by (simp add: group_sum_def)
      next
        case (Suc j)
        with len gs(5) show ?thesis by simp
      qed
    qed
    have m: "merge_pages mw (current # rest) = chunk_of_group ?g # map chunk_of_group gs"
      using False n(2) gs(3) by (simp add: chunk_of_group_def)
    show ?thesis
      apply (intro exI[of _ "?g # gs"])
      using gs(1,2,4) pre last m
      by simp
  qed
qed

lemma dropWhile_keeps: "\<not> P c \<Longrightarrow> c \<in> set xs \<Longrightarrow> c \<in> set (dropWhile P xs)"
  by (induction xs) auto

lemma strip_eq_Nil: "(strip s = []) = list_all isspace s"
proof
  assume "strip s = []"
  then have a: "\<forall>c\<in>set (rev (dropWhile isspace s)). isspace c"
    by (simp add: strip_def dropWhile_eq_Nil_conv)
  show "list_all isspace s"
  proof (rule ccontr)
    assume "\<not> list_all isspace s"
    then obtain c where c: "c \<in> set s" "\<not> isspace c" by (auto simp: list_all_iff)
    then have "c \<in> set (dropWhile isspace s)" by (simp add: dropWhile_keeps)
    with a c(2) show False by simp
  qed
next
  assume "list_all isspace s"
  then have "\<forall>x\<in>set s. isspace x" by (simp add: list_all_iff)
  then have "dropWhile isspace s = []" by (simp only: dropWhile_eq_Nil_conv)
  then show "strip s = []" by (simp only: strip_def rev.simps dropWhile.simps)
qed

lemma page_match_nonempty: "page_match s = Some n \<Longrightarrow> s \<noteq> []"
  by (auto simp: page_match_def split: if_splits)

lemma marker_line_not_blank:
  "page_match (strip line) = Some n \<Longrightarrow> \<not> list_all isspace line"
  using page_match_nonempty[of "strip line" n] by (simp add: strip_eq_Nil)

lemma set_join: "l \<in> set ls \<Longrightarrow> set l \<subseteq> set (join sep ls)"
  by (induction sep ls rule: join.induct) auto

lemma save_page_numbers:
  assumes "scan_ok st"
  shows "map rp_page_num (save_page st) = scan_numbers st"
proof (cases "current_page_num st")
  case None
  then show ?thesis by (simp add: save_page_def scan_numbers_def)
next
  case (Some n)
  with assms obtain l where l: "l \<in> set (current_page st)" "\<not> list_all isspace l"
    by (auto simp: scan_ok_def list_ex_iff)
  then obtain c where c: "c \<in> set l" "\<not> isspace c" by (auto simp: list_all_iff)
  with l(1) have "c \<in> set (join [NL] (current_page st))" using set_join by blast
  with c(2) have "\<not> list_all isspace (join [NL] (current_page st))" by (auto simp: list_all_iff)
  then have "strip (join [NL] (current_page st)) \<noteq> []" by (simp add: strip_eq_Nil)
  moreover from l(1) have "current_page st \<noteq> []" by auto
  ultimately show ?thesis using Some
    by (simp add: save_page_def scan_numbers_def Let_def)
qed

lemma save_page_counts:
  assumes "scan_ok st"
  shows "list_all (\<lambda>p. rp_word_count p = length (split_ws (rp_text p))) (save_page st)"
  using assms by (auto simp: save_page_def scan_ok_def Let_def split: option.splits)

lemma scan_line_ok:
  assumes "scan_ok st"
  shows "scan_ok (scan_line st line)"
proof (cases "page_match (strip line)")
  case None
  with assms show ?thesis by (auto simp: scan_line_def scan_ok_def)
next
  case (Some n)
  then have "\<not> list_all isspace line" by (rule marker_line_not_blank)
  with Some save_page_counts[OF assms] show ?thesis
    by (simp add: scan_line_def scan_ok_def)
qed

lemma scan_line_numbers:
  assumes "scan_ok st"
  shows "scan_numbers (scan_line st line) =
         scan_numbers st @ (case page_match (strip line) of None \<Rightarrow> [] | Some n \<Rightarrow> [n])"
proof (cases "page_match (strip line)")
  case None
  then show ?thesis by (simp add: scan_line_def scan_numbers_def)
next
  case (Some n)
  with save_page_numbers[OF assms] show ?thesis
    by (simp add: scan_line_def scan_numbers_def)
qed

lemma scan_lines:
  "scan_ok st \<Longrightarrow>
   scan_ok (foldl scan_line st ls) \<and>
   scan_numbers (foldl scan_line st ls) =
     scan_numbers st @ List.map_filter (\<lambda>line. page_match (strip line)) ls"
proof (induction ls arbitrary: st)
  case Nil
  then show ?case by (simp add: map_filter_simps)
next
  case (Cons l ls)
  from Cons.prems have ok: "scan_ok (scan_line st l)" by (rule scan_line_ok)
  from Cons.IH[OF ok] scan_line_numbers[OF Cons.prems, of l]
  show ?case by (cases "page_match (strip l)") (simp_all add: map_filter_simps)
qed

lemma scan_init_ok: "scan_ok scan_init"
  by (simp add: scan_ok_def scan_init_def)

lemma extract_pages_numbers:
  "map rp_page_num (extract_pages content) = marker_numbers content"
proof -
  from scan_lines[OF scan_init_ok, of "split_nl content"]
  have ok: "scan_ok (foldl scan_line scan_init (split_nl content))"
    and nums: "scan_numbers (foldl scan_line scan_init (split_nl content)) =
       scan_numbers scan_init @ marker_numbers content"
    by (simp_all add: marker_numbers_def)
  from save_page_numbers[OF ok] nums show ?thesis
    by (simp add: extract_pages_def scan_numbers_def scan_init_def)
qed

lemma extract_pages_counts:
  "list_all (\<lambda>p. rp_word_count p = length (split_ws (rp_text p))) (extract_pages content)"
proof -
  from scan_lines[OF scan_init_ok, of "split_nl content"]
  have ok: "scan_ok (foldl scan_line scan_init (split_nl content))" by simp
  then show ?thesis unfolding extract_pages_def by (rule save_page_counts)
qed

subsection \<open>Page ranges and word counts of the chunks\<close>

lemma chunk_ranges_of_groups:
  "concat (map ch_page_range (map chunk_of_group gs)) = map rp_page_num (concat gs)"
  by (induction gs) (simp_all add: chunk_of_group_def)

lemma merge_pages_ranges:
  "concat (map ch_page_range (merge_pages mw ps)) = map rp_page_num ps"
proof -
  from merge_pages_groups[of ps mw] obtain gs where
    "concat gs = ps" "merge_pages mw ps = map chunk_of_group gs" by blast
  then show ?thesis using chunk_ranges_of_groups[of gs] by simp
qed

lemma split_by_pages_ranges:
  "concat (map ch_page_range (split_by_pages content mw)) = marker_numbers content"
  by (simp add: split_by_pages_def merge_pages_ranges extract_pages_numbers)

lemma group_word_count:
  assumes "g \<noteq> []"
    and "list_all (\<lambda>p. rp_word_count p = length (split_ws (rp_text p))) g"
  shows "length (split_ws (join [NL, NL] (map rp_text g))) = group_sum g"
proof -
  from assms(1) have "split_ws (join [NL, NL] (map rp_text g)) = concat (map split_ws (map rp_text g))"
    by (simp add: split_ws_join)
  moreover from assms(2) have "length (concat (map split_ws (map rp_text g))) = group_sum g"
    by (induction g) (simp_all add: group_sum_def)
  ultimately show ?thesis by simp
qed

lemma merge_pages_counts:
  assumes "list_all (\<lambda>p. rp_word_count p = length (split_ws (rp_text p))) ps"
  shows "list_all (\<lambda>c. ch_word_count c = length (split_ws (ch_text c))) (merge_pages mw ps)"
proof -
  from merge_pages_groups[of ps mw] obtain gs where gs:
    "concat gs = ps" "[] \<notin> set gs" "merge_pages mw ps = map chunk_of_group gs" by blast
  have "ch_word_count (chunk_of_group g) = length (split_ws (ch_text (chunk_of_group g)))"
    if "g \<in> set gs" for g
  proof -
    from that gs(2) have ne: "g \<noteq> []" by auto
    from that gs(1) assms have "list_all (\<lambda>p. rp_word_count p = length (split_ws (rp_text p))) g"
      by (auto simp: list_all_iff)
    from group_word_count[OF ne this] show ?thesis
      by (simp add: chunk_of_group_def group_sum_def)
  qed
  with gs(3) show ?thesis by (simp add: list_all_iff)
qed

subsection \<open>The similarity pass\<close>












subsection \<open>Documents without a marker line\<close>

lemma no_markers_no_pages:
  "marker_numbers content = [] \<Longrightarrow> split_by_pages content mw = []"
proof -
  assume "marker_numbers content = []"
  then have "map rp_page_num (extract_pages content) = []"
    by (simp add: extract_pages_numbers)
  then have "extract_pages content = []" by simp
  then show ?thesis by (simp add: split_by_pages_def)
qed

subsection \<open>Keys and values of result dictionaries\<close>

lemma py_keys_set:
  "py_keys (py_set k v d) = (if k \<in> set (py_keys d) then py_keys d else py_keys d @ [k])"
  by (simp add: py_keys_def py_set_def update_keys)

lemma py_get_set:
  "py_get (py_set k v d) k' = (if k' = k then Some v else py_get d k')"
  by (simp add: py_get_def py_set_def update_conv')

lemma py_keys_set_old: "k \<in> set (py_keys d) \<Longrightarrow> py_keys (py_set k v d) = py_keys d"
  by (simp add: py_keys_set)

lemma py_keys_failed: "''error'' \<in> set (py_keys d) \<Longrightarrow> py_keys (failed msg d) = py_keys d"
  by (simp add: failed_def py_keys_set)




lemma base_or_info_info:
  "py_keys d = page_keys \<Longrightarrow> base_or_info (py_keys (py_set ''info'' v d))"
  by (simp add: base_or_info_def py_keys_set page_keys_def)









subsection \<open>The fields \<open>get_page_content\<close> sets from its first query\<close>

lemma py_get_failed:
  "py_get (failed msg d) k = (if k = ''error'' then Some (PStr msg) else py_get d k)"
  by (simp add: failed_def py_get_set)

lemma py_get_next:
  "k \<noteq> ''next_page'' \<Longrightarrow> py_get (set_next_page g i d) k = py_get d k"
  by (simp add: set_next_page_def py_get_set split: option.splits)

lemma py_get_prev:
  "k \<noteq> ''prev_page'' \<Longrightarrow> py_get (set_prev_page g i d) k = py_get d k"
  by (simp add: set_prev_page_def py_get_set split: option.splits)

lemma py_get_related:
  "k \<noteq> ''related_pages'' \<Longrightarrow> py_get (set_related_pages g i d) k = py_get d k"
  by (simp add: set_related_pages_def py_get_set)

lemma get_page_content_field:
  assumes "neo4j_driver t = Some drv" "nd_fault drv 0 = None" "nd_fault drv 1 = None"
    and "k \<noteq> ''next_page''" "k \<noteq> ''prev_page''" "k \<noteq> ''related_pages''" "k \<noteq> ''error''"
  shows "py_get (get_page_content t d s e) k = py_get (resolved (nd_graph drv) d s e) k"
  using assms
  by (simp add: get_page_content_def resolved_def Let_def py_get_failed py_get_next py_get_prev
        py_get_related split: option.splits sum.splits prod.splits)

lemma py_get_range_result:
  "py_get (range_result rows s e result) ''content'' = Some (PStr (combined_content rows))"
  "py_get (range_result rows s e result) ''word_count'' = Some (PInt (int (sum_list (map pn_word_count rows))))"
  "py_get (range_result rows s e result) ''page_range'' =
     Some (PList (map PInt (sort (remdups (concat (map pn_page_range rows))))))"
  "py_get (range_result rows s e result) ''pages_retrieved'' = Some (PInt (int (length rows)))"
  by (simp_all add: range_result_def py_get_set)

lemma py_get_single_result:
  "py_get (single_result p s result) ''content'' = Some (PStr (pn_text p))"
  "py_get (single_result p s result) ''word_count'' = Some (PInt (int (pn_word_count p)))"
  "py_get (single_result p s result) ''page_range'' = Some (PList (map PInt (pn_page_range p)))"
  "py_get (single_result p s result) ''is_merged'' = Some (PBool (pn_is_merged p))"
  "py_get (single_result p s result) ''pages_retrieved'' = Some (PInt 1)"
  by (simp_all add: single_result_def Let_def py_get_set)

lemma py_get_page_result:
  "py_get (page_result d s e) ''content'' = Some PNone"
  "py_get (page_result d s e) ''page_range'' = Some PNone"
  "py_get (page_result d s e) ''word_count'' = Some (PInt 0)"
  "py_get (page_result d s e) ''pages_retrieved'' = Some (PInt 0)"
  "py_get (page_result d s e) ''is_merged'' = Some (PBool False)"
  by (simp_all add: page_result_def Let_def py_get_def)

lemma range_pages_mset:
  "mset (range_pages g d s e) =
   filter_mset (\<lambda>p. pn_doc_id p = d \<and> (\<exists>page\<in>set (pn_page_range p). s \<le> page \<and> page \<le> e))
     (mset (pages g))"
  by (simp add: range_pages_def list_ex_iff)

lemma range_pages_sorted: "sorted (map pn_chunk_idx (range_pages g d s e))"
  by (simp add: range_pages_def)

lemma resolved_range:
  assumes "e \<noteq> s"
  shows "resolved g d s (Some e) =
         (if range_pages g d s e = []
          then py_set ''error'' (PStr (no_pages_message s e d)) (page_result d s (Some e))
          else range_result (range_pages g d s e) s e (page_result d s (Some e)))"
  using assms by (simp add: resolved_def resolve_pages_def Let_def)

lemma resolved_single:
  "resolved g d s None =
         (case single (single_pages g d s) of
            None \<Rightarrow> py_set ''error'' (PStr (not_found_message s d)) (page_result d s None)
          | Some p \<Rightarrow> single_result p s (page_result d s None))"
  by (simp add: resolved_def resolve_pages_def split: option.splits)

lemma get_page_content_range_error:
  assumes "neo4j_driver t = Some drv" "nd_fault drv 0 = None" "nd_fault drv 1 = None"
    and "e \<noteq> s" "range_pages (nd_graph drv) d s e = []"
  shows "py_get (get_page_content t d s (Some e)) ''error'' = Some (PStr (no_pages_message s e d))"
  using assms
  by (simp add: get_page_content_def resolve_pages_def Let_def py_get_set)

lemma get_page_content_single_error:
  assumes "neo4j_driver t = Some drv" "nd_fault drv 0 = None" "nd_fault drv 1 = None"
    and "single_pages (nd_graph drv) d s = []"
  shows "py_get (get_page_content t d s None) ''error'' = Some (PStr (not_found_message s d))"
  using assms
  by (simp add: get_page_content_def resolve_pages_def Let_def py_get_set single_def)

subsection \<open>Navigation and related pages\<close>














lemma single_pages_subset: "set (single_pages g d s) \<subseteq> set (pages g)"
  by (auto simp: single_pages_def)



subsection \<open>Keys and error fields of all operations\<close>




















lemma keys_failed_any: "''error'' \<in> set (py_keys d) \<Longrightarrow> py_keys (failed msg d) = py_keys d"
  by (rule py_keys_failed)



subsection \<open>The page nodes the indexing pass creates\<close>

lemma chunk_of_group_merged:
  "ch_is_merged (chunk_of_group g) = (1 < length (ch_page_range (chunk_of_group g)))"
  by (simp add: chunk_of_group_def)

lemma split_by_pages_is_merged:
  assumes "c \<in> set (split_by_pages content mw)"
  shows "ch_is_merged c = (1 < length (ch_page_range c))"
proof -
  from merge_pages_groups[of "extract_pages content" mw] obtain gs where
    "split_by_pages content mw = map chunk_of_group gs"
    unfolding split_by_pages_def by blast
  with assms obtain g where "c = chunk_of_group g" by auto
  then show ?thesis by (simp add: chunk_of_group_merged)
qed

lemma split_by_pages_count:
  assumes "c \<in> set (split_by_pages content mw)"
  shows "ch_word_count c = length (split_ws (ch_text c))"
  using merge_pages_counts[OF extract_pages_counts, of mw content] assms
  by (simp add: split_by_pages_def list_all_iff)

text \<open>Phase 1 keeps the page nodes and records chunks of the files.\<close>

lemma index_chunk_result:
  "index_chunk enc d (st, cl, mc) c = (st', cl', mc') \<Longrightarrow>
   doc_data st' = doc_data st \<and> store st' = store st
   \<and> (\<exists>cd. cl' = cl @ [cd] \<and> cd_doc_id cd = d \<and> cd_text cd = ch_text c
          \<and> cd_page_range cd = ch_page_range c \<and> cd_is_merged cd = ch_is_merged c
          \<and> cd_page_num cd = ch_page_num c)"
  by (auto simp: index_chunk_def Let_def)

lemma index_chunks_result:
  "foldl (index_chunk enc d) (st, cl, mc) cs = (st', cl', mc') \<Longrightarrow>
   doc_data st' = doc_data st \<and> store st' = store st
   \<and> (\<forall>cd\<in>set cl'. cd \<in> set cl \<or>
         (\<exists>c\<in>set cs. cd_doc_id cd = d \<and> cd_text cd = ch_text c
            \<and> cd_page_range cd = ch_page_range c \<and> cd_is_merged cd = ch_is_merged c
            \<and> cd_page_num cd = ch_page_num c))"
proof (induction cs arbitrary: st cl mc)
  case Nil
  then show ?case by simp
next
  case (Cons c cs)
  obtain st1 cl1 mc1 where s: "index_chunk enc d (st, cl, mc) c = (st1, cl1, mc1)"
    by (cases "index_chunk enc d (st, cl, mc) c") auto
  from index_chunk_result[OF s] obtain cd where cd:
    "doc_data st1 = doc_data st" "store st1 = store st" "cl1 = cl @ [cd]"
    "cd_doc_id cd = d" "cd_text cd = ch_text c" "cd_page_range cd = ch_page_range c"
    "cd_is_merged cd = ch_is_merged c" "cd_page_num cd = ch_page_num c"
    by blast
  from Cons.prems s have "foldl (index_chunk enc d) (st1, cl1, mc1) cs = (st', cl', mc')"
    by simp
  from Cons.IH[OF this] cd show ?case by auto
qed

lemma set_alist_update: "set (AList.update k v al) \<subseteq> set al \<union> {(k, v)}"
  by (induction al) auto

lemma index_file_ok:
  assumes "index_file enc fl st = Inr st'" "fl \<in> set files" "data_ok files (doc_data st)"
  shows "data_ok files (doc_data st') \<and> pages (store st') = pages (store st)
         \<and> next_page_rel (store st') = next_page_rel (store st)"
proof -
  obtain d content where f: "fl = (d, content)" by (cases fl) auto
  let ?st1 = "st\<lparr>store := merge_document (store st) d (d @ ''.md'') d\<rparr>"
  obtain st2 cl mc where fo:
    "foldl (index_chunk enc d) (?st1, [], 0) (split_by_pages content MIN_WORDS) = (st2, cl, mc)"
    by (cases "foldl (index_chunk enc d) (?st1, [], 0) (split_by_pages content MIN_WORDS)") auto
  from index_chunks_result[OF fo] have r: "doc_data st2 = doc_data st"
    "store st2 = merge_document (store st) d (d @ ''.md'') d"
    "\<forall>cd\<in>set cl. \<exists>c\<in>set (split_by_pages content MIN_WORDS). cd_doc_id cd = d \<and> cd_text cd = ch_text c
            \<and> cd_page_range cd = ch_page_range c \<and> cd_is_merged cd = ch_is_merged c
            \<and> cd_page_num cd = ch_page_num c"
    by auto
  from assms(1) f fo have d': "doc_data st' = AList.update d cl (doc_data st2)"
    and s': "store st' = store st2"
    by (auto simp: index_file_def Let_def split: option.splits)
  have clok: "\<forall>cd\<in>set cl. cd_doc_id cd = d \<and> cd_of_files files cd"
  proof
    fix cd assume "cd \<in> set cl"
    with r(3) obtain c where "c \<in> set (split_by_pages content MIN_WORDS)" "cd_doc_id cd = d"
      "cd_text cd = ch_text c" "cd_page_range cd = ch_page_range c"
      "cd_is_merged cd = ch_is_merged c" "cd_page_num cd = ch_page_num c" by blast
    with assms(2) f show "cd_doc_id cd = d \<and> cd_of_files files cd"
      unfolding cd_of_files_def by force
  qed
  have "data_ok files (doc_data st')"
    unfolding data_ok_def
  proof
    fix entry assume "entry \<in> set (doc_data st')"
    with d' r(1) set_alist_update[of d cl "doc_data st"]
    have "entry \<in> set (doc_data st) \<or> entry = (d, cl)" by auto
    then show "\<forall>cd\<in>set (snd entry). cd_doc_id cd = fst entry \<and> cd_of_files files cd"
      using assms(3) clok by (auto simp: data_ok_def)
  qed
  moreover have "pages (store st') = pages (store st)"
    "next_page_rel (store st') = next_page_rel (store st)"
    using s' r(2) by (simp_all add: merge_document_def)
  ultimately show ?thesis by simp
qed

lemma phase1_ok:
  "fold_err (index_file enc) fs st = Inr st' \<Longrightarrow> set fs \<subseteq> set files \<Longrightarrow>
   data_ok files (doc_data st) \<Longrightarrow>
   data_ok files (doc_data st') \<and> pages (store st') = pages (store st)"
proof (induction fs arbitrary: st)
  case Nil
  then show ?case by simp
next
  case (Cons f fs)
  from Cons.prems(1) obtain st1 where s: "index_file enc f st = Inr st1"
    "fold_err (index_file enc) fs st1 = Inr st'"
    by (auto split: sum.splits)
  from Cons.prems(2) have "f \<in> set files" "set fs \<subseteq> set files" by auto
  from index_file_ok[OF s(1) this(1) Cons.prems(3)] Cons.IH[OF s(2) \<open>set fs \<subseteq> set files\<close>]
  show ?case by simp
qed

text \<open>Phase 3 adds page nodes made from the chunk records.\<close>

lemma create_chunk_node_ok:
  assumes "create_chunk_node d cd g = Inr g'" "nodes_ok files g" "cd_doc_id cd = d"
    "cd_of_files files cd"
  shows "nodes_ok files g'"
proof -
  from assms(1) obtain s where s: "page_range_str (cd_page_range cd) = Inr s"
    and g': "pages g' = pages g @
       [\<lparr>pn_id = d @ ''_page_'' @ s, pn_doc_id = d, pn_page_num = cd_page_num cd,
         pn_page_range = cd_page_range cd, pn_page_range_str = s,
         pn_chunk_idx = cd_chunk_idx cd, pn_text = cd_text cd,
         pn_word_count = length (split_ws (cd_text cd)), pn_is_merged = cd_is_merged cd\<rparr>]"
    by (auto simp: create_chunk_node_def merge_contains_def create_page_def split: sum.splits)
  from assms(4) obtain fl c where fc: "fl \<in> set files"
    "c \<in> set (split_by_pages (snd fl) MIN_WORDS)"
    "cd_doc_id cd = fst fl" "cd_text cd = ch_text c" "cd_page_range cd = ch_page_range c"
    "cd_is_merged cd = ch_is_merged c" "cd_page_num cd = ch_page_num c"
    unfolding cd_of_files_def by blast
  from split_by_pages_count[OF fc(2)] have wc: "ch_word_count c = length (split_ws (ch_text c))" .
  have "node_of_files files
       \<lparr>pn_id = d @ ''_page_'' @ s, pn_doc_id = d, pn_page_num = cd_page_num cd,
         pn_page_range = cd_page_range cd, pn_page_range_str = s,
         pn_chunk_idx = cd_chunk_idx cd, pn_text = cd_text cd,
         pn_word_count = length (split_ws (cd_text cd)), pn_is_merged = cd_is_merged cd\<rparr>"
    unfolding node_of_files_def using fc assms(3) wc by force
  with assms(2) g' show ?thesis by (auto simp: nodes_ok_def)
qed

lemma create_chunk_nodes_ok:
  "fold_err (create_chunk_node d) cds g = Inr g' \<Longrightarrow> nodes_ok files g \<Longrightarrow>
   \<forall>cd\<in>set cds. cd_doc_id cd = d \<and> cd_of_files files cd \<Longrightarrow> nodes_ok files g'"
proof (induction cds arbitrary: g)
  case Nil
  then show ?case by simp
next
  case (Cons cd cds)
  from Cons.prems(1) obtain g1 where s: "create_chunk_node d cd g = Inr g1"
    "fold_err (create_chunk_node d) cds g1 = Inr g'"
    by (auto split: sum.splits)
  from Cons.prems(3) have a: "cd_doc_id cd = d" "cd_of_files files cd"
    "\<forall>cd\<in>set cds. cd_doc_id cd = d \<and> cd_of_files files cd" by auto
  from create_chunk_node_ok[OF s(1) Cons.prems(2) a(1,2)] have "nodes_ok files g1" .
  from Cons.IH[OF s(2) this a(3)] show ?case .
qed

lemma link_next_pages:
  "fold_err (link_next d cds) is g = Inr g' \<Longrightarrow> pages g' = pages g"
proof (induction "is" arbitrary: g)
  case Nil
  then show ?case by simp
next
  case (Cons i "is")
  from Cons.prems obtain g1 where s: "link_next d cds i g = Inr g1"
    "fold_err (link_next d cds) is g1 = Inr g'"
    by (auto split: sum.splits)
  from s(1) have "pages g1 = pages g"
    by (auto simp: link_next_def create_next_page_def split: sum.splits)
  with Cons.IH[OF s(2)] show ?case by simp
qed

lemma send_sim_requests_pages: "pages (foldl send_sim_request g rs) = pages g"
  by (induction rs arbitrary: g) (simp_all add: send_sim_request_def create_related_to_def)

lemma phase3_doc_ok:
  assumes "phase3_doc entry g = Inr g'" "nodes_ok files g"
    "\<forall>cd\<in>set (snd entry). cd_doc_id cd = fst entry \<and> cd_of_files files cd"
  shows "nodes_ok files g'"
proof -
  obtain d cds where e: "entry = (d, cds)" by (cases entry) auto
  from assms(1) e obtain g1 g2 rs where s:
    "fold_err (create_chunk_node d) cds g = Inr g1"
    "fold_err (link_next d cds) [0..<length cds - 1] g1 = Inr g2"
    "g' = foldl send_sim_request g2 rs"
    by (auto simp: phase3_doc_def split: sum.splits)
  from assms(3) e have "\<forall>cd\<in>set cds. cd_doc_id cd = d \<and> cd_of_files files cd" by simp
  from create_chunk_nodes_ok[OF s(1) assms(2) this] have "nodes_ok files g1" .
  with link_next_pages[OF s(2)] s(3) show ?thesis
    by (simp add: nodes_ok_def send_sim_requests_pages)
qed

lemma phase3_ok:
  "fold_err phase3_doc data g = Inr g' \<Longrightarrow> nodes_ok files g \<Longrightarrow> data_ok files data \<Longrightarrow>
   nodes_ok files g'"
proof (induction data arbitrary: g)
  case Nil
  then show ?case by simp
next
  case (Cons entry data)
  from Cons.prems(1) obtain g1 where s: "phase3_doc entry g = Inr g1"
    "fold_err phase3_doc data g1 = Inr g'"
    by (auto split: sum.splits)
  from Cons.prems(3) have a: "\<forall>cd\<in>set (snd entry). cd_doc_id cd = fst entry \<and> cd_of_files files cd"
    "data_ok files data" by (auto simp: data_ok_def)
  from phase3_doc_ok[OF s(1) Cons.prems(2) a(1)] have "nodes_ok files g1" .
  from Cons.IH[OF s(2) this a(2)] show ?case .
qed

lemma run_index_nodes:
  assumes "run_index enc files empty_graph = Inr g"
  shows "nodes_ok files g"
proof -
  from assms obtain st where st: "phase1 enc files (index_init empty_graph) = Inr st"
    "phase3 (doc_data st) (store st) = Inr g"
    by (auto simp: run_index_def split: if_splits sum.splits)
  have "data_ok files (doc_data (index_init empty_graph :: 'a index_state))"
    by (simp add: data_ok_def index_init_def)
  from phase1_ok[OF st(1)[unfolded phase1_def] subset_refl this]
  have d: "data_ok files (doc_data st)" and p: "pages (store st) = pages (store (index_init empty_graph :: 'a index_state))"
    by simp_all
  from p have "nodes_ok files (store st)"
    by (simp add: nodes_ok_def index_init_def empty_graph_def)
  from phase3_ok[OF st(2)[unfolded phase3_def] this d] show ?thesis .
qed

lemma node_of_files_merged:
  "node_of_files files p \<Longrightarrow>
   pn_is_merged p = (1 < length (pn_page_range p)) \<and> pn_word_count p = length (split_ws (pn_text p))"
  unfolding node_of_files_def
  using split_by_pages_is_merged split_by_pages_count by fastforce

section \<open>Properties of segmentation\<close>

text \<open>
  Claim C1, as amended. The \<open>page_range\<close> lists of the chunks, concatenated in chunk
  order, are the page numbers of the marker lines in the order of the document. Hence
  the union of the page ranges is exactly the set of page numbers on marker lines, and
  when no page number appears on two marker lines, no page number appears twice in the
  page ranges, neither in two chunks nor in one.
\<close>

theorem split_by_pages_coverage:
  "concat (map ch_page_range (split_by_pages content min_words)) = marker_numbers content
   \<and> (\<Union>c\<in>set (split_by_pages content min_words). set (ch_page_range c))
       = set (marker_numbers content)
   \<and> (distinct (marker_numbers content) \<longrightarrow>
        distinct (concat (map ch_page_range (split_by_pages content min_words))))"
proof -
  have c: "concat (map ch_page_range (split_by_pages content min_words)) = marker_numbers content"
    by (rule split_by_pages_ranges)
  have "(\<Union>c\<in>set (split_by_pages content min_words). set (ch_page_range c))
        = set (concat (map ch_page_range (split_by_pages content min_words)))"
    by simp
  with c show ?thesis by simp
qed

text \<open>The amended claim at a document of two pages with different numbers.\<close>

theorem split_by_pages_coverage_witness:
  "distinct (marker_numbers (''Page 1'' @ [NL] @ ''a'' @ [NL] @ ''Page 2'' @ [NL] @ ''b''))
   \<and> map ch_page_range
        (split_by_pages (''Page 1'' @ [NL] @ ''a'' @ [NL] @ ''Page 2'' @ [NL] @ ''b'') 3) = [[1], [2]]
   \<and> distinct (concat (map ch_page_range
        (split_by_pages (''Page 1'' @ [NL] @ ''a'' @ [NL] @ ''Page 2'' @ [NL] @ ''b'') 3)))"
proof -
  have d: "distinct (marker_numbers (''Page 1'' @ [NL] @ ''a'' @ [NL] @ ''Page 2'' @ [NL] @ ''b''))"
    by code_simp
  have m: "map ch_page_range
        (split_by_pages (''Page 1'' @ [NL] @ ''a'' @ [NL] @ ''Page 2'' @ [NL] @ ''b'') 3) = [[1], [2]]"
    by code_simp
  from split_by_pages_coverage[of "''Page 1'' @ [NL] @ ''a'' @ [NL] @ ''Page 2'' @ [NL] @ ''b''" 3] d m
  show ?thesis by blast
qed

text \<open>
  Claim C1 as stated fails where a page number appears on two marker lines: with
  \<open>min_words = 2\<close> each of the two marker lines \<open>Page 1\<close> is a chunk of its own, and
  page 1 is in the page range of both.
\<close>

theorem split_by_pages_duplicate_marker:
  "map ch_page_range (split_by_pages (''Page 1'' @ [NL] @ ''Page 1'') 2) = [[1], [1]]"
  by code_simp

text \<open>
  Claim C2. Every chunk but the last has a word count of at least \<open>min_words\<close>. The
  chunks are built from consecutive runs of the raw pages, in order and with none left
  out; within a run, pages are added only while the word count so far is below
  \<open>min_words\<close>, and every run but the last reaches \<open>min_words\<close>: a run stops when the
  count reaches the threshold or the raw pages are exhausted.
\<close>

theorem split_by_pages_merge_threshold:
  "(\<forall>k. Suc k < length (split_by_pages content min_words) \<longrightarrow>
        min_words \<le> int (ch_word_count (split_by_pages content min_words ! k)))
   \<and> (\<exists>gs. concat gs = extract_pages content \<and> [] \<notin> set gs
         \<and> split_by_pages content min_words = map chunk_of_group gs
         \<and> (\<forall>g\<in>set gs. \<forall>m. 0 < m \<and> m < length g \<longrightarrow> int (group_sum (take m g)) < min_words)
         \<and> (\<forall>k. Suc k < length gs \<longrightarrow> min_words \<le> int (group_sum (gs ! k))))"
proof -
  from merge_pages_groups[of "extract_pages content" min_words] obtain gs where gs:
    "concat gs = extract_pages content" "[] \<notin> set gs"
    "split_by_pages content min_words = map chunk_of_group gs"
    "\<forall>g\<in>set gs. \<forall>m. 0 < m \<and> m < length g \<longrightarrow> int (group_sum (take m g)) < min_words"
    "\<forall>k. Suc k < length gs \<longrightarrow> min_words \<le> int (group_sum (gs ! k))"
    unfolding split_by_pages_def by blast
  have "\<forall>k. Suc k < length (split_by_pages content min_words) \<longrightarrow>
        min_words \<le> int (ch_word_count (split_by_pages content min_words ! k))"
    using gs(3) gs(5) by (simp add: chunk_of_group_def group_sum_def)
  with gs show ?thesis by blast
qed

text \<open>
  The claim at a document of three pages with \<open>min_words = 4\<close>: page 1 (three words) takes
  page 2 and reaches the threshold; page 3 is the last chunk, below the threshold.
\<close>

theorem split_by_pages_merge_threshold_witness:
  "Suc 0 < length (split_by_pages (''Page 1'' @ [NL] @ ''a'' @ [NL] @ ''Page 2'' @ [NL] @ ''b c d'' @ [NL] @ ''Page 3'') 4)
   \<and> (4::int) \<le> int (ch_word_count
        (split_by_pages (''Page 1'' @ [NL] @ ''a'' @ [NL] @ ''Page 2'' @ [NL] @ ''b c d'' @ [NL] @ ''Page 3'') 4 ! 0))
   \<and> map ch_page_range
        (split_by_pages (''Page 1'' @ [NL] @ ''a'' @ [NL] @ ''Page 2'' @ [NL] @ ''b c d'' @ [NL] @ ''Page 3'') 4)
      = [[1, 2], [3]]"
proof -
  have l: "length (split_by_pages (''Page 1'' @ [NL] @ ''a'' @ [NL] @ ''Page 2'' @ [NL] @ ''b c d'' @ [NL] @ ''Page 3'') 4) = 2"
    by code_simp
  have m: "map ch_page_range
        (split_by_pages (''Page 1'' @ [NL] @ ''a'' @ [NL] @ ''Page 2'' @ [NL] @ ''b c d'' @ [NL] @ ''Page 3'') 4)
      = [[1, 2], [3]]"
    by code_simp
  from split_by_pages_merge_threshold[of "''Page 1'' @ [NL] @ ''a'' @ [NL] @ ''Page 2'' @ [NL] @ ''b c d'' @ [NL] @ ''Page 3''" 4]
  have "Suc 0 < length (split_by_pages (''Page 1'' @ [NL] @ ''a'' @ [NL] @ ''Page 2'' @ [NL] @ ''b c d'' @ [NL] @ ''Page 3'') 4) \<longrightarrow>
        4 \<le> int (ch_word_count (split_by_pages (''Page 1'' @ [NL] @ ''a'' @ [NL] @ ''Page 2'' @ [NL] @ ''b c d'' @ [NL] @ ''Page 3'') 4 ! 0))"
    by blast
  with l m show ?thesis by simp
qed

section \<open>Properties of the indexing pass\<close>



text \<open>
  Claim C7, as amended. A document without a marker line yields no chunk. The pass has
  no failure outcome for such a document: when \<open>page_range\<close> has been assigned before
  (an earlier file of the pass had a chunk), the pass goes on with the files that
  follow, from a state that differs from the one before in the \<open>Document\<close> node of that
  document, an empty chunk list for it in \<open>doc_data\<close> and one more status line of the
  usual form, with 0 chunks and 0 merged; no point is added, and the point counter and
  the merge statistics are as before.
\<close>

theorem zero_marker_document:
  assumes "marker_numbers content = []"
  shows "split_by_pages content min_words = []
    \<and> (\<forall>r. page_range_var st = Some r \<longrightarrow>
          phase1 encode ((doc_id, content) # md_files) st =
          phase1 encode md_files
            (st\<lparr>store := merge_document (store st) doc_id (doc_id @ ''.md'') doc_id,
                doc_data := AList.update doc_id [] (doc_data st),
                console := console st @
                  [\<lparr>sl_file = doc_id @ ''.md'', sl_chunks = 0,
                    sl_pages = (if r \<noteq> [] then str_int (hd r) @ ''-'' @ str_int (last r)
                                else ''N/A''),
                    sl_merged = 0\<rparr>]\<rparr>))"
proof (intro conjI allI impI)
  from assms show "split_by_pages content min_words = []" by (rule no_markers_no_pages)
next
  fix r assume r: "page_range_var st = Some r"
  from assms have e: "split_by_pages content MIN_WORDS = []" by (rule no_markers_no_pages)
  have "index_file encode (doc_id, content) st =
        Inr (st\<lparr>store := merge_document (store st) doc_id (doc_id @ ''.md'') doc_id,
                doc_data := AList.update doc_id [] (doc_data st),
                console := console st @
                  [\<lparr>sl_file = doc_id @ ''.md'', sl_chunks = 0,
                    sl_pages = (if r \<noteq> [] then str_int (hd r) @ ''-'' @ str_int (last r)
                                else ''N/A''),
                    sl_merged = 0\<rparr>]\<rparr>)"
    using r e by (simp add: index_file_def Let_def)
  then show "phase1 encode ((doc_id, content) # md_files) st =
          phase1 encode md_files
            (st\<lparr>store := merge_document (store st) doc_id (doc_id @ ''.md'') doc_id,
                doc_data := AList.update doc_id [] (doc_data st),
                console := console st @
                  [\<lparr>sl_file = doc_id @ ''.md'', sl_chunks = 0,
                    sl_pages = (if r \<noteq> [] then str_int (hd r) @ ''-'' @ str_int (last r)
                                else ''N/A''),
                    sl_merged = 0\<rparr>]\<rparr>)"
    by (simp add: phase1_def)
qed

text \<open>The amended claim at a document without a marker line.\<close>

theorem zero_marker_document_witness:
  "marker_numbers ''no page marker'' = []
   \<and> page_range_var example_state = Some [3, 4]
   \<and> split_by_pages ''no page marker'' MIN_WORDS = []
   \<and> phase1 (\<lambda>t. ()) [(''b'', ''no page marker'')] example_state =
       Inr (example_state
         \<lparr>store := merge_document (store example_state) ''b'' ''b.md'' ''b'',
          doc_data := [(''b'', [])],
          console := [\<lparr>sl_file = ''b.md'', sl_chunks = 0, sl_pages = ''3-4'', sl_merged = 0\<rparr>]\<rparr>)"
proof -
  have m: "marker_numbers ''no page marker'' = []" by code_simp
  have p: "page_range_var example_state = Some [3, 4]" by (simp add: example_state_def)
  have s: "str_int 3 = ''3''" "str_int 4 = ''4''" by code_simp+
  from zero_marker_document[OF m, of MIN_WORDS example_state "\<lambda>t. ()" "''b''" "[]"] p
  show ?thesis using m s
    by (simp add: phase1_def example_state_def index_init_def)
qed

text \<open>
  Claim C7 as stated fails. With a file \<open>a\<close> of one page first and a file \<open>b\<close> without a
  marker line second, the pass ends without an exception, and \<open>b\<close> has a status line
  like \<open>a\<close>'s and an empty chunk list: nothing records a failure. With \<open>b\<close> first, the
  pass ends at \<open>b\<close>'s status line with a \<open>NameError\<close>, and \<open>a\<close> is not indexed.
\<close>

theorem zero_marker_document_silent:
  "map_sum id (\<lambda>st. (console st, map (\<lambda>(d, cs). (d, length cs)) (doc_data st)))
     (phase1 (\<lambda>t. ()) [(''a'', ''Page 1'' @ [NL] @ ''x''), (''b'', ''no page marker'')]
        (index_init empty_graph))
   = Inr ([\<lparr>sl_file = ''a.md'', sl_chunks = 1, sl_pages = ''1-1'', sl_merged = 0\<rparr>,
           \<lparr>sl_file = ''b.md'', sl_chunks = 0, sl_pages = ''1-1'', sl_merged = 0\<rparr>],
          [(''a'', 1), (''b'', 0)])
   \<and> phase1 (\<lambda>t. ()) [(''b'', ''no page marker''), (''a'', ''Page 1'' @ [NL] @ ''x'')]
        (index_init empty_graph)
     = Inl NameError"
  by code_simp

text \<open>
  Claim C4 does not hold of the script. On an empty store, the example document of two
  chunks gives two page nodes and one \<open>NEXT_PAGE\<close> relationship. Run once more on the
  store the first run left, the script creates the two page nodes again, and for the
  one pair of adjacent chunks it then finds two nodes for each id and creates four
  relationships: four page nodes and five \<open>NEXT_PAGE\<close> relationships. The document
  node, written with \<open>MERGE\<close>, stays one.
\<close>

theorem index_twice_duplicates:
  "map_sum id graph_counts (run_index (\<lambda>t. ()) [(''d'', example_doc)] empty_graph)
     = Inr (1, 2, 2, 1)
   \<and> map_sum id graph_counts
       (case run_index (\<lambda>t. ()) [(''d'', example_doc)] empty_graph of
          Inl e \<Rightarrow> Inl e
        | Inr g \<Rightarrow> run_index (\<lambda>t. ()) [(''d'', example_doc)] g)
     = Inr (1, 4, 4, 5)"
  by code_simp

section \<open>Properties of the query engine\<close>

text \<open>
  Claim C5. Let the graph store be connected and let the opening of the session and the
  first query not raise. For a request with an end page given and different from the
  start page, the chunks \<open>get_page_content\<close> combines are exactly the page nodes of the
  document that have a page number in \<open>[start_page, end_page]\<close>, each as often as the
  store holds it, in the order of \<open>chunk_idx\<close>. When there is such a chunk, \<open>content\<close> is
  their texts, each after a header line with the label of its page range, joined by
  newlines; \<open>word_count\<close> is the sum of their word counts; \<open>page_range\<close> is the sorted list,
  without repetition, of the page numbers they cover; \<open>pages_retrieved\<close> is their number.
  When there is none, the result has the error \<open>No pages found in range ...\<close> and the
  fields keep their initial values. Faults of the later queries do not change these fields.
\<close>

theorem range_resolution:
  assumes "neo4j_driver t = Some drv" and "nd_fault drv 0 = None" and "nd_fault drv 1 = None"
    and "end_page \<noteq> start_page"
  shows
    "mset (range_pages (nd_graph drv) doc_id start_page end_page) =
       filter_mset (\<lambda>p. pn_doc_id p = doc_id \<and>
                        (\<exists>page\<in>set (pn_page_range p). start_page \<le> page \<and> page \<le> end_page))
         (mset (pages (nd_graph drv)))
     \<and> sorted (map pn_chunk_idx (range_pages (nd_graph drv) doc_id start_page end_page))
     \<and> (range_pages (nd_graph drv) doc_id start_page end_page \<noteq> [] \<longrightarrow>
          py_get (get_page_content t doc_id start_page (Some end_page)) ''content'' =
            Some (PStr (join [NL]
              (concat (map (\<lambda>p. [[NL] @ ''--- Pages '' @ pn_page_range_str p @ '' ---'' @ [NL],
                                  pn_text p])
                         (range_pages (nd_graph drv) doc_id start_page end_page)))))
          \<and> py_get (get_page_content t doc_id start_page (Some end_page)) ''word_count'' =
            Some (PInt (int (sum_list (map pn_word_count
                     (range_pages (nd_graph drv) doc_id start_page end_page)))))
          \<and> (\<exists>pr. py_get (get_page_content t doc_id start_page (Some end_page)) ''page_range'' =
                     Some (PList (map PInt pr))
                   \<and> sorted pr \<and> distinct pr
                   \<and> set pr = (\<Union>p\<in>set (range_pages (nd_graph drv) doc_id start_page end_page).
                                 set (pn_page_range p)))
          \<and> py_get (get_page_content t doc_id start_page (Some end_page)) ''pages_retrieved'' =
            Some (PInt (int (length (range_pages (nd_graph drv) doc_id start_page end_page)))))
     \<and> (range_pages (nd_graph drv) doc_id start_page end_page = [] \<longrightarrow>
          py_get (get_page_content t doc_id start_page (Some end_page)) ''error'' =
            Some (PStr (no_pages_message start_page end_page doc_id))
          \<and> py_get (get_page_content t doc_id start_page (Some end_page)) ''content'' = Some PNone
          \<and> py_get (get_page_content t doc_id start_page (Some end_page)) ''page_range'' = Some PNone
          \<and> py_get (get_page_content t doc_id start_page (Some end_page)) ''word_count'' =
            Some (PInt 0))"
proof -
  let ?g = "nd_graph drv"
  let ?sel = "range_pages ?g doc_id start_page end_page"
  let ?r = "get_page_content t doc_id start_page (Some end_page)"
  note f = get_page_content_field[OF assms(1-3), of _ doc_id start_page "Some end_page"]
  note rr = resolved_range[OF assms(4), of ?g doc_id]
  have c: "py_get ?r ''content'' = py_get (resolved ?g doc_id start_page (Some end_page)) ''content''"
    by (rule f) simp_all
  have w: "py_get ?r ''word_count'' = py_get (resolved ?g doc_id start_page (Some end_page)) ''word_count''"
    by (rule f) simp_all
  have p: "py_get ?r ''page_range'' = py_get (resolved ?g doc_id start_page (Some end_page)) ''page_range''"
    by (rule f) simp_all
  have n: "py_get ?r ''pages_retrieved'' = py_get (resolved ?g doc_id start_page (Some end_page)) ''pages_retrieved''"
    by (rule f) simp_all
  have some: "?sel \<noteq> [] \<longrightarrow>
          py_get ?r ''content'' =
            Some (PStr (join [NL]
              (concat (map (\<lambda>p. [[NL] @ ''--- Pages '' @ pn_page_range_str p @ '' ---'' @ [NL],
                                  pn_text p]) ?sel))))
          \<and> py_get ?r ''word_count'' = Some (PInt (int (sum_list (map pn_word_count ?sel))))
          \<and> (\<exists>pr. py_get ?r ''page_range'' = Some (PList (map PInt pr))
                   \<and> sorted pr \<and> distinct pr
                   \<and> set pr = (\<Union>p\<in>set ?sel. set (pn_page_range p)))
          \<and> py_get ?r ''pages_retrieved'' = Some (PInt (int (length ?sel)))"
  proof
    assume ne: "?sel \<noteq> []"
    have pr: "py_get ?r ''page_range'' =
                Some (PList (map PInt (sort (remdups (concat (map pn_page_range ?sel))))))"
      using ne by (simp add: p rr py_get_range_result)
    have "sorted (sort (remdups (concat (map pn_page_range ?sel))))
          \<and> distinct (sort (remdups (concat (map pn_page_range ?sel))))
          \<and> set (sort (remdups (concat (map pn_page_range ?sel)))) = (\<Union>p\<in>set ?sel. set (pn_page_range p))"
      by simp
    with pr have ex: "\<exists>pr. py_get ?r ''page_range'' = Some (PList (map PInt pr))
                   \<and> sorted pr \<and> distinct pr
                   \<and> set pr = (\<Union>p\<in>set ?sel. set (pn_page_range p))"
      by blast
    have c': "py_get ?r ''content'' = Some (PStr (combined_content ?sel))"
      using ne by (simp add: c rr py_get_range_result)
    have w': "py_get ?r ''word_count'' = Some (PInt (int (sum_list (map pn_word_count ?sel))))"
      using ne by (simp add: w rr py_get_range_result)
    have n': "py_get ?r ''pages_retrieved'' = Some (PInt (int (length ?sel)))"
      using ne by (simp add: n rr py_get_range_result)
    from c' w' n' ex show
      "py_get ?r ''content'' =
            Some (PStr (join [NL]
              (concat (map (\<lambda>p. [[NL] @ ''--- Pages '' @ pn_page_range_str p @ '' ---'' @ [NL],
                                  pn_text p]) ?sel))))
          \<and> py_get ?r ''word_count'' = Some (PInt (int (sum_list (map pn_word_count ?sel))))
          \<and> (\<exists>pr. py_get ?r ''page_range'' = Some (PList (map PInt pr))
                   \<and> sorted pr \<and> distinct pr
                   \<and> set pr = (\<Union>p\<in>set ?sel. set (pn_page_range p)))
          \<and> py_get ?r ''pages_retrieved'' = Some (PInt (int (length ?sel)))"
      unfolding combined_content_def by blast
  qed
  have none: "?sel = [] \<longrightarrow>
          py_get ?r ''error'' = Some (PStr (no_pages_message start_page end_page doc_id))
          \<and> py_get ?r ''content'' = Some PNone
          \<and> py_get ?r ''page_range'' = Some PNone
          \<and> py_get ?r ''word_count'' = Some (PInt 0)"
  proof
    assume e: "?sel = []"
    from get_page_content_range_error[OF assms(1-3) assms(4) e]
    have "py_get ?r ''error'' = Some (PStr (no_pages_message start_page end_page doc_id))" .
    moreover have "py_get ?r ''content'' = Some PNone"
      using e by (simp add: c rr py_get_set py_get_page_result)
    moreover have "py_get ?r ''page_range'' = Some PNone"
      using e by (simp add: p rr py_get_set py_get_page_result)
    moreover have "py_get ?r ''word_count'' = Some (PInt 0)"
      using e by (simp add: w rr py_get_set py_get_page_result)
    ultimately show "py_get ?r ''error'' = Some (PStr (no_pages_message start_page end_page doc_id))
          \<and> py_get ?r ''content'' = Some PNone
          \<and> py_get ?r ''page_range'' = Some PNone
          \<and> py_get ?r ''word_count'' = Some (PInt 0)"
      by blast
  qed
  from range_pages_mset[of ?g doc_id start_page end_page]
       range_pages_sorted[of ?g doc_id start_page end_page] some none
  show ?thesis by blast
qed

text \<open>The claim at the example store, for the range from page 2 to page 3.\<close>

theorem range_resolution_witness:
  "neo4j_driver example_tool = Some example_driver
   \<and> nd_fault example_driver 0 = None \<and> nd_fault example_driver 1 = None \<and> (3::int) \<noteq> 2
   \<and> map pn_id (range_pages example_graph ''d'' 2 3) = [''d_page_1-2'', ''d_page_3'']
   \<and> py_get (get_page_content example_tool ''d'' 2 (Some 3)) ''word_count'' = Some (PInt 9)
   \<and> py_get (get_page_content example_tool ''d'' 2 (Some 3)) ''pages_retrieved'' = Some (PInt 2)
   \<and> py_get (get_page_content example_tool ''d'' 2 (Some 3)) ''content'' =
       Some (PStr ([NL] @ ''--- Pages 1-2 ---'' @ [NL, NL] @ ''Page 1 a Page 2 b'' @ [NL, NL] @
                   ''--- Pages 3 ---'' @ [NL, NL] @ ''Page 3 c''))"
proof -
  have d: "neo4j_driver example_tool = Some example_driver"
    by (simp add: example_tool_def example_driver_def)
  have f: "nd_fault example_driver 0 = None" "nd_fault example_driver 1 = None"
    by (simp_all add: example_driver_def)
  have g: "nd_graph example_driver = example_graph"
    by (simp add: example_driver_def)
  have ids: "map pn_id (range_pages example_graph ''d'' 2 3) = [''d_page_1-2'', ''d_page_3'']"
    by code_simp
  then have ne: "range_pages example_graph ''d'' 2 3 \<noteq> []" by auto
  have wc: "int (sum_list (map pn_word_count (range_pages example_graph ''d'' 2 3))) = 9"
    by code_simp
  have len: "int (length (range_pages example_graph ''d'' 2 3)) = 2"
    by code_simp
  have co: "join [NL]
              (concat (map (\<lambda>p. [[NL] @ ''--- Pages '' @ pn_page_range_str p @ '' ---'' @ [NL],
                                  pn_text p])
                         (range_pages example_graph ''d'' 2 3)))
            = [NL] @ ''--- Pages 1-2 ---'' @ [NL, NL] @ ''Page 1 a Page 2 b'' @ [NL, NL] @
                   ''--- Pages 3 ---'' @ [NL, NL] @ ''Page 3 c''"
    by code_simp
  from range_resolution[OF d f, of 3 2 "''d''"] ne
  have "py_get (get_page_content example_tool ''d'' 2 (Some 3)) ''content'' =
            Some (PStr (join [NL]
              (concat (map (\<lambda>p. [[NL] @ ''--- Pages '' @ pn_page_range_str p @ '' ---'' @ [NL],
                                  pn_text p])
                         (range_pages example_graph ''d'' 2 3)))))"
    and "py_get (get_page_content example_tool ''d'' 2 (Some 3)) ''word_count'' =
            Some (PInt (int (sum_list (map pn_word_count (range_pages example_graph ''d'' 2 3)))))"
    and "py_get (get_page_content example_tool ''d'' 2 (Some 3)) ''pages_retrieved'' =
            Some (PInt (int (length (range_pages example_graph ''d'' 2 3))))"
    unfolding g by simp_all
  with d f ids show ?thesis
    unfolding wc len co by simp
qed

text \<open>
  Claim C6. Let the graph store be connected and let the opening of the session and the
  first query not raise. For a single page number, the rows of the first query are the
  page nodes of the document whose \<open>page_range\<close> has the page. When there is exactly one,
  the result has its full text as \<open>content\<close> and its \<open>page_range\<close>, \<open>is_merged\<close> and
  \<open>word_count\<close>: for a page merged into a chunk of several pages, the text of the whole
  chunk, the whole page range and the flag the node carries. When there is none, the
  result has the error \<open>Page N not found in doc\<close>, and no content. A request whose end
  page equals its start page is a request for a single page. When the store is the one
  the indexing pass makes of a list of files on an empty store, the one node found
  carries text, page range, page number and word count of a chunk of one of the files,
  and \<open>is_merged\<close> in the result tells whether its page range has more than one page.
\<close>

theorem single_page_lookup:
  assumes "neo4j_driver t = Some drv" and "nd_fault drv 0 = None" and "nd_fault drv 1 = None"
  shows
    "set (single_pages (nd_graph drv) doc_id page) =
       {p \<in> set (pages (nd_graph drv)). pn_doc_id p = doc_id \<and> page \<in> set (pn_page_range p)}
     \<and> (\<forall>p. single_pages (nd_graph drv) doc_id page = [p] \<longrightarrow>
          py_get (get_page_content t doc_id page None) ''content'' = Some (PStr (pn_text p))
          \<and> py_get (get_page_content t doc_id page None) ''page_range'' =
              Some (PList (map PInt (pn_page_range p)))
          \<and> py_get (get_page_content t doc_id page None) ''is_merged'' =
              Some (PBool (pn_is_merged p))
          \<and> py_get (get_page_content t doc_id page None) ''word_count'' =
              Some (PInt (int (pn_word_count p)))
          \<and> py_get (get_page_content t doc_id page None) ''pages_retrieved'' = Some (PInt 1))
     \<and> (single_pages (nd_graph drv) doc_id page = [] \<longrightarrow>
          py_get (get_page_content t doc_id page None) ''error'' =
            Some (PStr (not_found_message page doc_id))
          \<and> py_get (get_page_content t doc_id page None) ''content'' = Some PNone
          \<and> py_get (get_page_content t doc_id page None) ''page_range'' = Some PNone)
     \<and> not_found_message page doc_id = ''Page '' @ str_int page @ '' not found in '' @ doc_id
     \<and> get_page_content t doc_id page (Some page) = get_page_content t doc_id page None
     \<and> (run_index encode md_files empty_graph = Inr (nd_graph drv) \<longrightarrow>
          (\<forall>p. single_pages (nd_graph drv) doc_id page = [p] \<longrightarrow>
             node_of_files md_files p
             \<and> py_get (get_page_content t doc_id page None) ''is_merged'' =
                 Some (PBool (1 < length (pn_page_range p)))))"
proof -
  let ?g = "nd_graph drv"
  let ?r = "get_page_content t doc_id page None"
  note f = get_page_content_field[OF assms(1-3), of _ doc_id page None]
  note rs = resolved_single[of ?g doc_id page]
  have found: "\<forall>p. single_pages ?g doc_id page = [p] \<longrightarrow>
          py_get ?r ''content'' = Some (PStr (pn_text p))
          \<and> py_get ?r ''page_range'' = Some (PList (map PInt (pn_page_range p)))
          \<and> py_get ?r ''is_merged'' = Some (PBool (pn_is_merged p))
          \<and> py_get ?r ''word_count'' = Some (PInt (int (pn_word_count p)))
          \<and> py_get ?r ''pages_retrieved'' = Some (PInt 1)"
  proof (intro allI impI)
    fix p assume p: "single_pages ?g doc_id page = [p]"
    then have r: "resolved ?g doc_id page None = single_result p page (page_result doc_id page None)"
      by (simp add: rs single_def)
    have "py_get ?r ''content'' = Some (PStr (pn_text p))"
      by (simp add: f r py_get_single_result)
    moreover have "py_get ?r ''page_range'' = Some (PList (map PInt (pn_page_range p)))"
      by (simp add: f r py_get_single_result)
    moreover have "py_get ?r ''is_merged'' = Some (PBool (pn_is_merged p))"
      by (simp add: f r py_get_single_result)
    moreover have "py_get ?r ''word_count'' = Some (PInt (int (pn_word_count p)))"
      by (simp add: f r py_get_single_result)
    moreover have "py_get ?r ''pages_retrieved'' = Some (PInt 1)"
      by (simp add: f r py_get_single_result)
    ultimately show "py_get ?r ''content'' = Some (PStr (pn_text p))
          \<and> py_get ?r ''page_range'' = Some (PList (map PInt (pn_page_range p)))
          \<and> py_get ?r ''is_merged'' = Some (PBool (pn_is_merged p))
          \<and> py_get ?r ''word_count'' = Some (PInt (int (pn_word_count p)))
          \<and> py_get ?r ''pages_retrieved'' = Some (PInt 1)"
      by blast
  qed
  have missing: "single_pages ?g doc_id page = [] \<longrightarrow>
          py_get ?r ''error'' = Some (PStr (not_found_message page doc_id))
          \<and> py_get ?r ''content'' = Some PNone
          \<and> py_get ?r ''page_range'' = Some PNone"
  proof
    assume e: "single_pages ?g doc_id page = []"
    then have r: "resolved ?g doc_id page None =
                  py_set ''error'' (PStr (not_found_message page doc_id)) (page_result doc_id page None)"
      by (simp add: rs single_def)
    have "py_get ?r ''content'' = Some PNone"
      by (simp add: f r py_get_set py_get_page_result)
    moreover have "py_get ?r ''page_range'' = Some PNone"
      by (simp add: f r py_get_set py_get_page_result)
    ultimately show "py_get ?r ''error'' = Some (PStr (not_found_message page doc_id))
          \<and> py_get ?r ''content'' = Some PNone
          \<and> py_get ?r ''page_range'' = Some PNone"
      using get_page_content_single_error[OF assms e] by blast
  qed
  have pr: "page_result doc_id page (Some page) = page_result doc_id page None"
    by (simp add: page_result_def)
  have rp: "resolve_pages g res doc_id page (Some page) = resolve_pages g res doc_id page None"
    for g res
    by (simp add: resolve_pages_def)
  have same: "get_page_content t doc_id page (Some page) = get_page_content t doc_id page None"
    unfolding get_page_content_def pr rp ..
  have s: "set (single_pages ?g doc_id page) =
       {p \<in> set (pages ?g). pn_doc_id p = doc_id \<and> page \<in> set (pn_page_range p)}"
    by (auto simp: single_pages_def)
  have built: "run_index encode md_files empty_graph = Inr ?g \<longrightarrow>
          (\<forall>p. single_pages ?g doc_id page = [p] \<longrightarrow>
             node_of_files md_files p
             \<and> py_get ?r ''is_merged'' = Some (PBool (1 < length (pn_page_range p))))"
  proof (intro impI allI)
    fix p assume run: "run_index encode md_files empty_graph = Inr ?g"
      and p: "single_pages ?g doc_id page = [p]"
    from p have "p \<in> set (single_pages ?g doc_id page)" by simp
    then have "p \<in> set (pages ?g)" using single_pages_subset by blast
    with run_index_nodes[OF run] have n: "node_of_files md_files p"
      by (simp add: nodes_ok_def)
    from node_of_files_merged[OF n] found p
    show "node_of_files md_files p
             \<and> py_get ?r ''is_merged'' = Some (PBool (1 < length (pn_page_range p)))"
      using n by simp
  qed
  from s found missing same built show ?thesis
    by (simp add: not_found_message_def)
qed

text \<open>
  The claim at the example store: page 2, merged with page 1 into one chunk, and page 9,
  which no chunk has; and at the store the pass makes of the merged document, for page 2.
\<close>

theorem single_page_lookup_witness:
  "neo4j_driver example_tool = Some example_driver
   \<and> nd_fault example_driver 0 = None \<and> nd_fault example_driver 1 = None
   \<and> map pn_id (single_pages example_graph ''d'' 2) = [''d_page_1-2'']
   \<and> py_get (get_page_content example_tool ''d'' 2 None) ''content'' =
       Some (PStr ''Page 1 a Page 2 b'')
   \<and> py_get (get_page_content example_tool ''d'' 2 None) ''page_range'' =
       Some (PList [PInt 1, PInt 2])
   \<and> py_get (get_page_content example_tool ''d'' 2 None) ''is_merged'' = Some (PBool True)
   \<and> single_pages example_graph ''d'' 9 = []
   \<and> py_get (get_page_content example_tool ''d'' 9 None) ''error'' =
       Some (PStr ''Page 9 not found in d'')
   \<and> run_index (\<lambda>t. ()) [(''m'', merged_doc)] empty_graph = Inr merged_graph
   \<and> single_pages merged_graph ''m'' 2 = [pages merged_graph ! 0]
   \<and> pn_page_range (pages merged_graph ! 0) = [1, 2]
   \<and> py_get (get_page_content merged_tool ''m'' 2 None) ''is_merged'' = Some (PBool True)"
proof -
  have d: "neo4j_driver example_tool = Some example_driver"
    by (simp add: example_tool_def example_driver_def)
  have f: "nd_fault example_driver 0 = None" "nd_fault example_driver 1 = None"
    by (simp_all add: example_driver_def)
  have g: "nd_graph example_driver = example_graph"
    by (simp add: example_driver_def)
  have one: "single_pages example_graph ''d'' 2 = [pages example_graph ! 0]"
    by code_simp
  have ids: "map pn_id (single_pages example_graph ''d'' 2) = [''d_page_1-2'']"
    by code_simp
  have none: "single_pages example_graph ''d'' 9 = []"
    by code_simp
  have v: "pn_text (pages example_graph ! 0) = ''Page 1 a Page 2 b''"
    "pn_page_range (pages example_graph ! 0) = [1, 2]"
    "pn_is_merged (pages example_graph ! 0) = True"
    by (simp_all add: example_graph_def)
  have m: "not_found_message 9 ''d'' = ''Page 9 not found in d''"
    by code_simp
  from single_page_lookup[OF d f, of "''d''" 2] one
  have a: "py_get (get_page_content example_tool ''d'' 2 None) ''content'' =
             Some (PStr (pn_text (pages example_graph ! 0)))
         \<and> py_get (get_page_content example_tool ''d'' 2 None) ''page_range'' =
             Some (PList (map PInt (pn_page_range (pages example_graph ! 0))))
         \<and> py_get (get_page_content example_tool ''d'' 2 None) ''is_merged'' =
             Some (PBool (pn_is_merged (pages example_graph ! 0)))"
    unfolding g by blast
  from single_page_lookup[OF d f, of "''d''" 9] none
  have b: "py_get (get_page_content example_tool ''d'' 9 None) ''error'' =
            Some (PStr (not_found_message 9 ''d''))"
    unfolding g by blast
  have md: "neo4j_driver merged_tool = Some merged_driver"
    by (simp add: merged_tool_def)
  have mf: "nd_fault merged_driver 0 = None" "nd_fault merged_driver 1 = None"
    by (simp_all add: merged_driver_def)
  have mg: "nd_graph merged_driver = merged_graph"
    by (simp add: merged_driver_def)
  have run: "run_index (\<lambda>t. ()) [(''m'', merged_doc)] empty_graph = Inr merged_graph"
    by code_simp
  have mone: "single_pages merged_graph ''m'' 2 = [pages merged_graph ! 0]"
    by code_simp
  have mr: "pn_page_range (pages merged_graph ! 0) = [1, 2]"
    by (simp add: merged_graph_def)
  from single_page_lookup[OF md mf, of "''m''" 2 "\<lambda>t. ()" "[(''m'', merged_doc)]"] run mone
  have "py_get (get_page_content merged_tool ''m'' 2 None) ''is_merged'' =
          Some (PBool (1 < length (pn_page_range (pages merged_graph ! 0))))"
    unfolding mg by blast
  then have c: "py_get (get_page_content merged_tool ''m'' 2 None) ''is_merged'' = Some (PBool True)"
    unfolding mr by simp
  from a b c d f ids none run mone mr show ?thesis
    unfolding v m by simp
qed

text \<open>
  Claim C10. For every document text and every \<open>min_words\<close>, each chunk that
  \<open>split_by_pages\<close> returns has a \<open>word_count\<close> equal to the number of white space
  separated tokens of its \<open>text\<close>. For a chunk put together from several raw pages, the
  token count of the texts joined by two newlines is the sum of the token counts of the
  raw pages' texts. The page nodes the indexing pass creates on an empty store have a
  \<open>word_count\<close> equal to the token count of their \<open>text\<close> as well.
\<close>

theorem split_by_pages_word_count:
  "list_all (\<lambda>c. ch_word_count c = length (split_ws (ch_text c)))
     (split_by_pages content min_words)
   \<and> length (split_ws (join [NL, NL] (map rp_text (p # ps))))
       = sum_list (map (\<lambda>q. length (split_ws (rp_text q))) (p # ps))
   \<and> (run_index encode md_files empty_graph = Inr g \<longrightarrow>
        list_all (\<lambda>n. pn_word_count n = length (split_ws (pn_text n))) (pages g))"
proof (intro conjI impI)
  show "list_all (\<lambda>c. ch_word_count c = length (split_ws (ch_text c)))
     (split_by_pages content min_words)"
    unfolding split_by_pages_def by (rule merge_pages_counts) (rule extract_pages_counts)
next
  have "split_ws (join [NL, NL] (map rp_text (p # ps))) = concat (map split_ws (map rp_text (p # ps)))"
    by (rule split_ws_join) simp
  then show "length (split_ws (join [NL, NL] (map rp_text (p # ps))))
       = sum_list (map (\<lambda>q. length (split_ws (rp_text q))) (p # ps))"
    by (simp add: length_concat comp_def)
next
  assume "run_index encode md_files empty_graph = Inr g"
  from run_index_nodes[OF this] node_of_files_merged
  show "list_all (\<lambda>n. pn_word_count n = length (split_ws (pn_text n))) (pages g)"
    unfolding nodes_ok_def list_all_iff by blast
qed

text \<open>The claim at the merged document and the store the pass makes of it.\<close>

theorem split_by_pages_word_count_witness:
  "run_index (\<lambda>t. ()) [(''m'', merged_doc)] empty_graph = Inr merged_graph
   \<and> map ch_word_count (split_by_pages merged_doc MIN_WORDS) = [6]
   \<and> map (\<lambda>c. length (split_ws (ch_text c))) (split_by_pages merged_doc MIN_WORDS) = [6]
   \<and> list_all (\<lambda>n. pn_word_count n = length (split_ws (pn_text n))) (pages merged_graph)"
proof -
  have run: "run_index (\<lambda>t. ()) [(''m'', merged_doc)] empty_graph = Inr merged_graph"
    by code_simp
  have a: "map ch_word_count (split_by_pages merged_doc MIN_WORDS) = [6]"
    by code_simp
  from split_by_pages_word_count[where content = merged_doc and min_words = MIN_WORDS
         and encode = "\<lambda>t. ()" and md_files = "[(''m'', merged_doc)]" and g = merged_graph] run
  have b: "list_all (\<lambda>c. ch_word_count c = length (split_ws (ch_text c)))
             (split_by_pages merged_doc MIN_WORDS)"
    and c: "list_all (\<lambda>n. pn_word_count n = length (split_ws (pn_text n))) (pages merged_graph)"
    by blast+
  from b have "map (\<lambda>c. length (split_ws (ch_text c))) (split_by_pages merged_doc MIN_WORDS)
               = map ch_word_count (split_by_pages merged_doc MIN_WORDS)"
    by (simp add: list_all_iff)
  with a run c show ?thesis by simp
qed






end
